theory Spec2Isabelle
  imports Main "HOL-Library.AList"
begin

section \<open>The file-backed datastore of lib/database.js\<close>

text \<open>
  A JavaScript object is modelled as an association list: the first binding of a key is
  the property, \<open>AList.update\<close> assigns (keeping the place of a key that exists, adding a
  new key at the end, as property assignment does) and \<open>AList.delete\<close> is \<open>delete\<close>.
  The own keys of an object, in the order \<open>for in\<close> and \<open>Object.keys\<close> visit them, are
  the keys of \<open>AList.clearjunk\<close> (names of attributes and collections are taken not to be
  array indices, which JavaScript would enumerate first).
\<close>

subsection \<open>Values\<close>

text \<open>
  Record values: the primitives of JavaScript with integers for numbers, and objects
  (arrays included) as opaque references, compared by identity.
\<close>

datatype jsval =
    JUndefined
  | JNull
  | JBool bool
  | JNum int
  | JStr string
  | JObj nat

type_synonym jsrecord = "(string \<times> jsval) list"

text \<open>
  Numbers are doubles, of which the integers are modelled (below the overflow to
  \<open>Infinity\<close>). Up to \<open>2^53\<close> in magnitude every integer is a double; beyond, a double
  has 53 significant bits, and the sum of an addition is rounded to the nearest such
  number, to the one with an even last bit when two are equally near. \<open>quantum a\<close> is
  the distance between the doubles around \<open>a\<close>, \<open>js_succ n\<close> is what \<open>n++\<close> stores.
\<close>

function quantum :: "int \<Rightarrow> int" where
  "quantum a = (if a < 2 ^ 53 then 1 else 2 * quantum (a div 2))"
  by auto
termination
  by (relation "measure nat") auto

declare quantum.simps [simp del]

definition round_double :: "int \<Rightarrow> int" where
  "round_double m =
     (let a = \<bar>m\<bar> in
      if a \<le> 2 ^ 53 then m
      else (let q = quantum a; k = a div q; r = a mod q;
                k' = (if q < 2 * r \<or> (2 * r = q \<and> odd k) then k + 1 else k)
            in sgn m * (k' * q)))"

definition js_succ :: "int \<Rightarrow> int" where
  "js_succ n = round_double (n + 1)"

text \<open>\<open>values[attrName]\<close>: a missing property reads as \<open>undefined\<close>.\<close>

definition get_prop :: "jsrecord \<Rightarrow> string \<Rightarrow> jsval" where
  "get_prop r k = (case map_of r k of None \<Rightarrow> JUndefined | Some v \<Rightarrow> v)"

text \<open>\<open>if (v)\<close>: the truthiness of a value.\<close>

fun truthy :: "jsval \<Rightarrow> bool" where
  "truthy JUndefined = False"
| "truthy JNull = False"
| "truthy (JBool b) = b"
| "truthy (JNum n) = (n \<noteq> 0)"
| "truthy (JStr s) = (s \<noteq> [])"
| "truthy (JObj r) = True"

text \<open>
  \<open>a === b\<close>: equal primitives of one type, or one and the same object. On this value
  type that is equality.
\<close>

definition strict_eq :: "jsval \<Rightarrow> jsval \<Rightarrow> bool" where
  "strict_eq a b = (a = b)"

text \<open>
  \<open>a == b\<close>: as \<open>===\<close> within one type; \<open>null\<close> and \<open>undefined\<close> equal each other and
  nothing else; every other comparison across types goes through the conversions of the
  language (ToNumber of a string, ToPrimitive of an object), which are the parameter
  \<open>conv\<close>.
\<close>

fun loose_eq :: "(jsval \<Rightarrow> jsval \<Rightarrow> bool) \<Rightarrow> jsval \<Rightarrow> jsval \<Rightarrow> bool" where
  "loose_eq conv JUndefined b = (b = JUndefined \<or> b = JNull)"
| "loose_eq conv JNull b = (b = JUndefined \<or> b = JNull)"
| "loose_eq conv a JUndefined = False"
| "loose_eq conv a JNull = False"
| "loose_eq conv (JBool x) (JBool y) = (x = y)"
| "loose_eq conv (JNum x) (JNum y) = (x = y)"
| "loose_eq conv (JStr x) (JStr y) = (x = y)"
| "loose_eq conv (JObj x) (JObj y) = (x = y)"
| "loose_eq conv a b = conv a b"

text \<open>
  \<open>JSON.parse(v)\<close> on a record value: the argument is converted to a string and the text
  parsed; \<open>None\<close> is the SyntaxError. \<open>undefined\<close> gives the text \<open>undefined\<close>, which is
  no JSON; \<open>null\<close>, a boolean and an integer print as JSON and parse back to themselves.
  What a string or the text of an object parses to is the parameter \<open>parse\<close>.
\<close>

fun JSON_parse :: "(jsval \<Rightarrow> jsval option) \<Rightarrow> jsval \<Rightarrow> jsval option" where
  "JSON_parse parse JUndefined = None"
| "JSON_parse parse JNull = Some JNull"
| "JSON_parse parse (JBool b) = Some (JBool b)"
| "JSON_parse parse (JNum n) = Some (JNum n)"
| "JSON_parse parse (JStr s) = parse (JStr s)"
| "JSON_parse parse (JObj r) = parse (JObj r)"

subsection \<open>Schema, engine state, errors\<close>

text \<open>The fields of an attribute definition that the engine reads.\<close>

record attrdef =
  def_type :: "string option"
  def_unique :: bool
  def_autoIncrement :: bool

type_synonym schemadef = "(string \<times> attrdef) list"

text \<open>
  The instance: \<open>this.filePath\<close>, \<open>this.data\<close>, \<open>this.schema\<close>, \<open>this.counters\<close>, and
  the collection names pushed on \<open>this.writeQueue\<close> and not yet served.
\<close>

record database =
  filePath :: string
  data :: "(string \<times> jsrecord list) list"
  schema :: "(string \<times> schemadef) list"
  counters :: "(string \<times> (string \<times> int) list) list"
  writeQueue :: "string list"

text \<open>
  \<open>Violation a v\<close> is \<open>new Error('Uniqueness check failed on attribute: a with value: v')\<close>,
  \<open>UniquenessFailed as\<close> the single error of an update of several records,
  \<open>UniquenessErrors\<close> an array of violations given to the callback. \<open>TypeError\<close> is the
  exception of reading a property of \<open>undefined\<close>. \<open>BadIndex\<close> marks a matched index
  that is no position of the collection, which the criteria evaluator never returns.
\<close>

datatype violation = Violation string jsval

datatype fs_call = CreateFile | ReadFile | OutputJson

datatype error =
    NoFilePath
  | CollectionNotRegistered
  | UniquenessErrors "violation list"
  | UniquenessFailed "string list"
  | SyntaxError
  | IOError fs_call
  | TypeError
  | BadIndex

text \<open>\<open>this.data[collectionName]\<close> as the loops read it: no iteration when it is missing.\<close>

definition records_of :: "database \<Rightarrow> string \<Rightarrow> jsrecord list" where
  "records_of db c = (case map_of (data db) c of None \<Rightarrow> [] | Some rs \<Rightarrow> rs)"

subsection \<open>Constraints\<close>

text \<open>
  \<open>uniqueConstraint\<close>: the inner loop over the records of the collection, for one
  unique attribute.
\<close>

fun unique_scan :: "string \<Rightarrow> jsrecord \<Rightarrow> jsrecord list \<Rightarrow> violation list" where
  "unique_scan attrName vals [] = []"
| "unique_scan attrName vals (row # rest) =
     (if get_prop vals attrName = JUndefined then unique_scan attrName vals rest
      else if strict_eq (get_prop vals attrName) (get_prop row attrName)
      then Violation attrName (get_prop vals attrName) # unique_scan attrName vals rest
      else unique_scan attrName vals rest)"

text \<open>The outer loop over the attributes of the schema.\<close>

fun unique_attrs :: "schemadef \<Rightarrow> jsrecord \<Rightarrow> jsrecord list \<Rightarrow> violation list" where
  "unique_attrs [] vals rows = []"
| "unique_attrs ((attrName, attrDef) # rest) vals rows =
     (if \<not> def_unique attrDef then unique_attrs rest vals rows
      else unique_scan attrName vals rows @ unique_attrs rest vals rows)"

definition uniqueConstraint :: "database \<Rightarrow> string \<Rightarrow> jsrecord \<Rightarrow> violation list" where
  "uniqueConstraint db c vals =
     (case map_of (schema db) c of
        None \<Rightarrow> []
      | Some sch \<Rightarrow> unique_attrs (AList.clearjunk sch) vals (records_of db c))"

text \<open>
  \<open>autoIncrement\<close>: the loop over the attributes of the schema. It changes the counters
  of the instance and the candidate; reading \<open>this.counters[collectionName][attrName]\<close>
  when the collection has no counters object throws.
\<close>

fun autoIncrement_loop ::
  "string \<Rightarrow> schemadef \<Rightarrow> database \<Rightarrow> jsrecord \<Rightarrow> (error + jsrecord) \<times> database" where
  "autoIncrement_loop c [] db vals = (Inr vals, db)"
| "autoIncrement_loop c ((attrName, attrDef) # rest) db vals =
     (if \<not> def_autoIncrement attrDef then autoIncrement_loop c rest db vals
      else if truthy (get_prop vals attrName) then autoIncrement_loop c rest db vals
      else (case map_of (counters db) c of
              None \<Rightarrow> (Inl TypeError, db)
            | Some cs \<Rightarrow>
                (let n0 = (case map_of cs attrName of
                             None \<Rightarrow> 0
                           | Some n \<Rightarrow> if n = 0 then 0 else n);
                     n1 = js_succ n0;
                     db' = db\<lparr>counters := AList.update c (AList.update attrName n1 cs) (counters db)\<rparr>
                 in autoIncrement_loop c rest db' (AList.update attrName (JNum n1) vals))))"

definition autoIncrement :: "database \<Rightarrow> string \<Rightarrow> jsrecord \<Rightarrow> (error + jsrecord) \<times> database" where
  "autoIncrement db c vals =
     (case map_of (schema db) c of
        None \<Rightarrow> (Inr vals, db)
      | Some sch \<Rightarrow> autoIncrement_loop c (AList.clearjunk sch) db vals)"

text \<open>
  \<open>serializeValues\<close>: the body of the \<open>forEach\<close> for one key, and the loop over
  \<open>Object.keys(values)\<close>, taken before the loop starts.
\<close>

definition serialize_key ::
  "(jsval \<Rightarrow> jsval option) \<Rightarrow> database \<Rightarrow> string \<Rightarrow> string \<Rightarrow> jsrecord \<Rightarrow> jsrecord" where
  "serialize_key parse db c key vals =
     (case map_of (schema db) c of
        None \<Rightarrow> vals
      | Some sch \<Rightarrow>
          (case map_of sch key of
             None \<Rightarrow> vals
           | Some attrDef \<Rightarrow>
               if def_type attrDef = Some ''json''
               then (case JSON_parse parse (get_prop vals key) of
                       None \<Rightarrow> vals
                     | Some val \<Rightarrow> AList.update key val vals)
               else vals))"

definition serializeValues ::
  "(jsval \<Rightarrow> jsval option) \<Rightarrow> database \<Rightarrow> string \<Rightarrow> jsrecord \<Rightarrow> jsrecord" where
  "serializeValues parse db c vals =
     fold (serialize_key parse db c) (map fst (AList.clearjunk vals)) vals"

subsection \<open>Insert\<close>

definition insert_record ::
  "(jsval \<Rightarrow> jsval option) \<Rightarrow> database \<Rightarrow> string \<Rightarrow> jsrecord \<Rightarrow> (error + jsrecord) \<times> database" where
  "insert_record parse db c vals =
     (if filePath db = [] then (Inl NoFilePath, db)
      else let errors = uniqueConstraint db c vals in
        if errors \<noteq> [] then (Inl (UniquenessErrors errors), db)
        else (case autoIncrement db c vals of
                (Inl e, db1) \<Rightarrow> (Inl e, db1)
              | (Inr vals1, db1) \<Rightarrow>
                  (let vals2 = serializeValues parse db1 c vals1 in
                   case map_of (data db1) c of
                     None \<Rightarrow> (Inl CollectionNotRegistered, db1)
                   | Some rows \<Rightarrow>
                       (Inr vals2,
                        db1\<lparr>data := AList.update c (rows @ [vals2]) (data db1),
                            writeQueue := writeQueue db1 @ [c]\<rparr>))))"

subsection \<open>Update and destroy\<close>

text \<open>
  The criteria evaluator (\<open>waterlineCriteria(collectionName, this.data, options)\<close>) is
  the parameter \<open>criteria\<close>; only the \<open>indicies\<close> of its result are used here.
\<close>

text \<open>
  The lodash that package.json declares is \<open>^4.17.15\<close>. Of the functions that
  lib/database.js calls, it has \<open>isUndefined\<close>, \<open>each\<close>, \<open>keys\<close>, \<open>extend\<close>,
  \<open>cloneDeep\<close> and \<open>reject\<close>; it has no \<open>where\<close> and no \<open>contains\<close>, which lodash
  4.0.0 removed in favour of \<open>filter\<close> and \<open>includes\<close>. So \<open>_.where\<close> and \<open>_.contains\<close>
  are \<open>undefined\<close> and a call of either throws a TypeError. \<open>None\<close> is the function
  that is not there; with \<open>Some\<close> function the code goes on as written.
\<close>

definition lodash_where :: "((string \<Rightarrow> bool) \<Rightarrow> string list \<Rightarrow> string list) option" where
  "lodash_where = None"

definition lodash_contains :: "(nat list \<Rightarrow> nat \<Rightarrow> bool) option" where
  "lodash_contains = None"

text \<open>The \<open>_.each\<close> over \<open>uniqueAttrs\<close>, against the one matched record.\<close>

fun unique_check ::
  "(jsval \<Rightarrow> jsval \<Rightarrow> bool) \<Rightarrow> jsrecord \<Rightarrow> jsrecord \<Rightarrow> string list \<Rightarrow> violation list" where
  "unique_check conv result vals [] = []"
| "unique_check conv result vals (uniqueAttr # rest) =
     (if \<not> loose_eq conv (get_prop result uniqueAttr) (get_prop vals uniqueAttr)
      then Violation uniqueAttr (get_prop vals uniqueAttr) # unique_check conv result vals rest
      else unique_check conv result vals rest)"

text \<open>\<open>_.extend(target, source)\<close>: every own property of the source is assigned.\<close>

definition extend_obj :: "jsrecord \<Rightarrow> jsrecord \<Rightarrow> jsrecord" where
  "extend_obj target source = fold (\<lambda>(k, v). AList.update k v) (AList.clearjunk source) target"

text \<open>The \<open>forEach\<close> over the matched indices; \<open>results\<close> receives a copy of each record.\<close>

fun update_loop ::
  "string \<Rightarrow> jsrecord \<Rightarrow> nat list \<Rightarrow> database \<Rightarrow> jsrecord list
    \<Rightarrow> (error + jsrecord list) \<times> database" where
  "update_loop c vals [] db results = (Inr results, db)"
| "update_loop c vals (matchIndex # rest) db results =
     (case map_of (data db) c of
        None \<Rightarrow> (Inl TypeError, db)
      | Some rows \<Rightarrow>
          if length rows \<le> matchIndex then (Inl BadIndex, db)
          else (let merged = extend_obj (rows ! matchIndex) vals;
                    db' = db\<lparr>data := AList.update c (rows[matchIndex := merged]) (data db)\<rparr>
                in update_loop c vals rest db' (results @ [merged])))"

text \<open>The end of \<open>update\<close>: the loop, the push on the write queue, the callback.\<close>

definition update_apply ::
  "string \<Rightarrow> jsrecord \<Rightarrow> nat list \<Rightarrow> database \<Rightarrow> (error + jsrecord list) \<times> database" where
  "update_apply c vals indicies db =
     (case update_loop c vals indicies db [] of
        (Inl e, db') \<Rightarrow> (Inl e, db')
      | (Inr results, db') \<Rightarrow> (Inr results, db'\<lparr>writeQueue := writeQueue db' @ [c]\<rparr>))"

text \<open>\<open>attributeDef && attributeDef.unique\<close>, for an attribute of a schema.\<close>

definition is_unique_attr :: "schemadef \<Rightarrow> string \<Rightarrow> bool" where
  "is_unique_attr sch attrName =
     (case map_of sch attrName of None \<Rightarrow> False | Some attributeDef \<Rightarrow> def_unique attributeDef)"

definition update ::
  "(string \<Rightarrow> (string \<times> jsrecord list) list \<Rightarrow> 'q \<Rightarrow> nat list) \<Rightarrow> (jsval \<Rightarrow> jsval \<Rightarrow> bool)
    \<Rightarrow> database \<Rightarrow> string \<Rightarrow> 'q \<Rightarrow> jsrecord \<Rightarrow> (error + jsrecord list) \<times> database" where
  "update criteria conv db c options vals =
     (if filePath db = [] then (Inl NoFilePath, db)
      else let indicies = criteria c (data db) options;
               keys = map fst (AList.clearjunk vals)
        in (case lodash_where of
              None \<Rightarrow> (Inl TypeError, db)
            | Some whr \<Rightarrow>
               (case map_of (schema db) c of
                  None \<Rightarrow> if keys \<noteq> [] then (Inl TypeError, db) else update_apply c vals indicies db
                | Some sch \<Rightarrow>
                    (let uniqueAttrs = whr (is_unique_attr sch) keys in
                     if uniqueAttrs \<noteq> [] \<and> indicies \<noteq> [] then
                       (if 1 < length indicies then (Inl (UniquenessFailed uniqueAttrs), db)
                        else (case map_of (data db) c of
                                None \<Rightarrow> (Inl TypeError, db)
                              | Some rows \<Rightarrow>
                                  if length rows \<le> hd indicies then (Inl TypeError, db)
                                  else (let errors =
                                              unique_check conv (rows ! hd indicies) vals uniqueAttrs
                                        in if errors \<noteq> [] then (Inl (UniquenessErrors errors), db)
                                           else update_apply c vals indicies db)))
                     else update_apply c vals indicies db))))"

text \<open>
  \<open>_.reject(collection, predicate)\<close>: the predicate is called with each record and its
  position, in order; what it throws ends the loop. A missing collection has no record
  and is rejected to \<open>[]\<close>.
\<close>

fun reject_rows :: "(nat \<Rightarrow> error + bool) \<Rightarrow> nat \<Rightarrow> jsrecord list \<Rightarrow> error + jsrecord list" where
  "reject_rows predicate i [] = Inr []"
| "reject_rows predicate i (model # rest) =
     (case predicate i of
        Inl e \<Rightarrow> Inl e
      | Inr rejected \<Rightarrow>
          (case reject_rows predicate (Suc i) rest of
             Inl e \<Rightarrow> Inl e
           | Inr kept \<Rightarrow> Inr (if rejected then kept else model # kept)))"

text \<open>
  \<open>destroy\<close>: the predicate is \<open>_.contains(resultSet.indicies, i)\<close>; when it throws,
  nothing has been assigned yet.
\<close>

definition destroy ::
  "(string \<Rightarrow> (string \<times> jsrecord list) list \<Rightarrow> 'q \<Rightarrow> nat list)
    \<Rightarrow> database \<Rightarrow> string \<Rightarrow> 'q \<Rightarrow> error option \<times> database" where
  "destroy criteria db c options =
     (if filePath db = [] then (Some NoFilePath, db)
      else let indicies = criteria c (data db) options;
               predicate = (\<lambda>i. case lodash_contains of
                                   None \<Rightarrow> Inl TypeError
                                 | Some contains \<Rightarrow> Inr (contains indicies i))
        in (case reject_rows predicate 0 (records_of db c) of
              Inl e \<Rightarrow> (Some e, db)
            | Inr kept \<Rightarrow>
                (None, db\<lparr>data := AList.update c kept (data db),
                           writeQueue := writeQueue db @ [c]\<rparr>)))"

subsection \<open>Collections\<close>

record collection =
  c_data :: "jsrecord list"
  c_schema :: schemadef
  c_counters :: "(string \<times> int) list"

definition counters_of :: "database \<Rightarrow> string \<Rightarrow> (string \<times> int) list" where
  "counters_of db c = (case map_of (counters db) c of None \<Rightarrow> [] | Some cs \<Rightarrow> cs)"

definition schema_of :: "database \<Rightarrow> string \<Rightarrow> schemadef" where
  "schema_of db c = (case map_of (schema db) c of None \<Rightarrow> [] | Some sch \<Rightarrow> sch)"

text \<open>
  \<open>setCollection\<close>: \<open>data.concat(options.data || [])\<close> has no effect, its result is
  dropped; the argument \<open>defn\<close> is \<open>options.definition\<close>, \<open>None\<close> when it is not given.
\<close>

definition setCollection ::
  "database \<Rightarrow> string \<Rightarrow> schemadef option \<Rightarrow> (error + collection) \<times> database" where
  "setCollection db c defn =
     (if filePath db = [] then (Inl NoFilePath, db)
      else let rows = records_of db c;
               cs = counters_of db c;
               sch = (case defn of None \<Rightarrow> [] | Some d \<Rightarrow> d)
        in (Inr \<lparr>c_data = rows, c_schema = sch, c_counters = cs\<rparr>,
            db\<lparr>data := AList.update c rows (data db),
               counters := AList.update c cs (counters db),
               schema := AList.update c sch (schema db)\<rparr>))"

definition registerCollection ::
  "database \<Rightarrow> string \<Rightarrow> schemadef option \<Rightarrow> (error + collection) \<times> database" where
  "registerCollection db c defn = setCollection db c defn"

definition getCollection :: "database \<Rightarrow> string \<Rightarrow> error + collection" where
  "getCollection db c =
     (if filePath db = [] then Inl NoFilePath
      else Inr \<lparr>c_data = records_of db c, c_schema = schema_of db c, c_counters = counters_of db c\<rparr>)"

definition createCollection ::
  "database \<Rightarrow> string \<Rightarrow> schemadef option \<Rightarrow> (error + schemadef) \<times> database" where
  "createCollection db c defn =
     (case setCollection db c defn of
        (Inl err, db') \<Rightarrow> (Inl err, db')
      | (Inr col, db') \<Rightarrow> (Inr (c_schema col), db'\<lparr>writeQueue := writeQueue db' @ [c]\<rparr>))"

text \<open>\<open>describe\<close>: \<open>None\<close> is the \<open>null\<close> given for a schema without keys.\<close>

definition describe :: "database \<Rightarrow> string \<Rightarrow> error + schemadef option" where
  "describe db c =
     (case getCollection db c of
        Inl err \<Rightarrow> Inl err
      | Inr col \<Rightarrow>
          Inr (if 0 < length (AList.clearjunk (c_schema col)) then Some (c_schema col) else None))"

subsection \<open>Persistence\<close>

text \<open>
  The file system: the content of each file that exists, and the calls that fail, each
  with the path it fails on. \<open>fs.createFile\<close> leaves a file that exists as it is.
  A call and its callback are taken as one step.
\<close>

record filesystem =
  files :: "(string \<times> string) list"
  failing :: "(fs_call \<times> string) list"

definition fs_exists :: "filesystem \<Rightarrow> string \<Rightarrow> bool" where
  "fs_exists fs path = (map_of (files fs) path \<noteq> None)"

definition fs_createFile :: "filesystem \<Rightarrow> string \<Rightarrow> error option \<times> filesystem" where
  "fs_createFile fs path =
     (if (CreateFile, path) \<in> set (failing fs) then (Some (IOError CreateFile), fs)
      else if fs_exists fs path then (None, fs)
      else (None, fs\<lparr>files := AList.update path [] (files fs)\<rparr>))"

definition fs_readFile :: "filesystem \<Rightarrow> string \<Rightarrow> error + string" where
  "fs_readFile fs path =
     (if (ReadFile, path) \<in> set (failing fs) then Inl (IOError ReadFile)
      else (case map_of (files fs) path of
              None \<Rightarrow> Inl (IOError ReadFile)
            | Some content \<Rightarrow> Inr content))"

definition fs_outputJson :: "filesystem \<Rightarrow> string \<Rightarrow> string \<Rightarrow> error option \<times> filesystem" where
  "fs_outputJson fs path text =
     (if (OutputJson, path) \<in> set (failing fs) then (Some (IOError OutputJson), fs)
      else (None, fs\<lparr>files := AList.update path text (files fs)\<rparr>))"

text \<open>The object that is written to the file and read back from it.\<close>

record persisted =
  p_data :: "(string \<times> jsrecord list) list"
  p_schema :: "(string \<times> schemadef) list"
  p_counters :: "(string \<times> (string \<times> int) list) list"

definition empty_state :: persisted where
  "empty_state = \<lparr>p_data = [], p_schema = [], p_counters = []\<rparr>"

text \<open>
  What \<open>JSON.parse\<close> gives for the text of a file: \<open>null\<close>, or an object with the three
  fields of the file layout. A value of another shape (a number, an object without the
  fields) would put \<open>undefined\<close> into the instance and is outside this model.
\<close>

datatype json_doc = JsonNull | JsonState persisted

text \<open>
  \<open>JSON.parse\<close> on the text of the file: the empty text is no JSON (a SyntaxError, here
  \<open>None\<close>); what any other text decodes to is the parameter \<open>decode\<close>. The serializer
  behind \<open>fs.outputJson\<close> is the parameter \<open>encode\<close> of \<open>write\<close>.
\<close>

definition JSON_parse_text :: "(string \<Rightarrow> json_doc option) \<Rightarrow> string \<Rightarrow> json_doc option" where
  "JSON_parse_text decode text = (if text = [] then None else decode text)"

text \<open>\<open>write\<close> (named \<open>write_disk\<close> here): the collection name it is called with is not used.\<close>

definition write_disk ::
  "(persisted \<Rightarrow> string) \<Rightarrow> database \<Rightarrow> filesystem \<Rightarrow> string \<Rightarrow> error option \<times> filesystem" where
  "write_disk encode db fs collectionName =
     (if filePath db = [] then (Some NoFilePath, fs)
      else (case fs_createFile fs (filePath db) of
              (Some err, fs1) \<Rightarrow> (Some err, fs1)
            | (None, fs1) \<Rightarrow>
                fs_outputJson fs1 (filePath db)
                  (encode \<lparr>p_data = data db, p_schema = schema db, p_counters = counters db\<rparr>)))"

text \<open>The worker of the write queue, serving the oldest request.\<close>

definition writeQueue_worker ::
  "(persisted \<Rightarrow> string) \<Rightarrow> database \<Rightarrow> filesystem \<Rightarrow> error option \<times> database \<times> filesystem" where
  "writeQueue_worker encode db fs =
     (case writeQueue db of
        [] \<Rightarrow> (None, db, fs)
      | collectionName # rest \<Rightarrow>
          (case write_disk encode db fs collectionName of
             (res, fs') \<Rightarrow> (res, db\<lparr>writeQueue := rest\<rparr>, fs')))"

text \<open>
  \<open>read\<close>: \<open>self.data = {}\<close> comes first in the callback of \<open>fs.exists\<close>, so the test
  "already read into memory" (\<open>Object.keys(self.data).length !== 0\<close>) that follows the
  existence test is never true and its branch is left out. When the text parses to
  \<open>null\<close>, reading \<open>state.data\<close> throws a TypeError, after the \<open>try\<close>, and the
  callback is not called.
\<close>

definition read ::
  "(string \<Rightarrow> json_doc option) \<Rightarrow> database \<Rightarrow> filesystem
    \<Rightarrow> (error + persisted) \<times> database \<times> filesystem" where
  "read decode db fs =
     (if filePath db = [] then (Inl NoFilePath, db, fs)
      else let db1 = db\<lparr>data := []\<rparr> in
        if \<not> fs_exists fs (filePath db) then
          (case fs_createFile fs (filePath db) of
             (Some err, fs1) \<Rightarrow> (Inl err, db1, fs1)
           | (None, fs1) \<Rightarrow> (Inr empty_state, db1, fs1))
        else (case fs_readFile fs (filePath db) of
                Inl err \<Rightarrow> (Inl err, db1, fs)
              | Inr text \<Rightarrow>
                  if text = [] then (Inr empty_state, db1, fs)
                  else (case JSON_parse_text decode text of
                          None \<Rightarrow> (Inl SyntaxError, db1, fs)
                        | Some JsonNull \<Rightarrow> (Inl TypeError, db1, fs)
                        | Some (JsonState state) \<Rightarrow>
                            (Inr state,
                             db1\<lparr>data := p_data state, schema := p_schema state,
                                 counters := p_counters state\<rparr>,
                             fs))))"

text \<open>
  \<open>dropCollection\<close>: without a file path it returns an object and calls nothing;
  otherwise it ends in \<open>write\<close>, whose outcome is the callback's.
\<close>

definition drop_one :: "string \<Rightarrow> database \<Rightarrow> database" where
  "drop_one name db = db\<lparr>data := AList.delete name (data db), schema := AList.delete name (schema db)\<rparr>"

definition dropCollection ::
  "(persisted \<Rightarrow> string) \<Rightarrow> database \<Rightarrow> filesystem \<Rightarrow> string \<Rightarrow> string list
    \<Rightarrow> error option \<times> database \<times> filesystem" where
  "dropCollection encode db fs collectionName relations =
     (if filePath db = [] then (Some NoFilePath, db, fs)
      else let db1 = drop_one collectionName db;
               db2 = fold drop_one relations db1
        in (case write_disk encode db2 fs collectionName of
              (res, fs') \<Rightarrow> (res, db2, fs')))"

subsection \<open>Notions used in the statements\<close>

text \<open>\<open>attrDef.autoIncrement\<close> for an attribute of a schema, false when it has none.\<close>

definition is_autoIncrement_attr :: "schemadef \<Rightarrow> string \<Rightarrow> bool" where
  "is_autoIncrement_attr sch attrName =
     (case map_of sch attrName of None \<Rightarrow> False | Some attrDef \<Rightarrow> def_autoIncrement attrDef)"

text \<open>The counter of an attribute as \<open>autoIncrement\<close> reads it: 0 when it is not set.\<close>

definition counter_value :: "database \<Rightarrow> string \<Rightarrow> string \<Rightarrow> int" where
  "counter_value db c attrName =
     (case map_of (counters_of db c) attrName of None \<Rightarrow> 0 | Some n \<Rightarrow> n)"

text \<open>
  \<open>assigned\<close>: the attributes that \<open>autoIncrement\<close> gives a value, those marked
  auto-increment whose value in the candidate is not truthy.
\<close>

definition assigned :: "database \<Rightarrow> string \<Rightarrow> jsrecord \<Rightarrow> string \<Rightarrow> bool" where
  "assigned db c vals k = (is_autoIncrement_attr (schema_of db c) k \<and> \<not> truthy (get_prop vals k))"

text \<open>The attributes that \<open>serializeValues\<close> parses: in the schema, with type \<open>json\<close>.\<close>

definition is_json_attr :: "database \<Rightarrow> string \<Rightarrow> string \<Rightarrow> bool" where
  "is_json_attr db c key =
     (case map_of (schema db) c of
        None \<Rightarrow> False
      | Some sch \<Rightarrow> (case map_of sch key of None \<Rightarrow> False | Some attrDef \<Rightarrow> def_type attrDef = Some ''json''))"

text \<open>The parsed value, or the value itself when parsing throws.\<close>

definition coerced :: "(jsval \<Rightarrow> jsval option) \<Rightarrow> jsval \<Rightarrow> jsval" where
  "coerced parse v = (case JSON_parse parse v of None \<Rightarrow> v | Some val \<Rightarrow> val)"

text \<open>The whole state of the instance, as \<open>write\<close> hands it to the serializer.\<close>

definition whole_state :: "database \<Rightarrow> persisted" where
  "whole_state db = \<lparr>p_data = data db, p_schema = schema db, p_counters = counters db\<rparr>"

text \<open>
  A caller's sequence of inserts into one collection, each on the state the one before
  left, with the outcome of each. \<open>all_pass\<close>: each candidate of the sequence passes
  the uniqueness check on the state it meets.
\<close>

fun insert_all ::
  "(jsval \<Rightarrow> jsval option) \<Rightarrow> database \<Rightarrow> string \<Rightarrow> jsrecord list
    \<Rightarrow> (error + jsrecord) list \<times> database" where
  "insert_all parse db c [] = ([], db)"
| "insert_all parse db c (vals # rest) =
     (case insert_record parse db c vals of
        (out, db1) \<Rightarrow> (case insert_all parse db1 c rest of (outs, db2) \<Rightarrow> (out # outs, db2)))"

fun all_pass ::
  "(jsval \<Rightarrow> jsval option) \<Rightarrow> database \<Rightarrow> string \<Rightarrow> jsrecord list \<Rightarrow> bool" where
  "all_pass parse db c [] = True"
| "all_pass parse db c (vals # rest) =
     (uniqueConstraint db c vals = []
      \<and> all_pass parse (snd (insert_record parse db c vals)) c rest)"

subsection \<open>Example states\<close>

text \<open>
  The collection \<open>users\<close> with an auto-increment \<open>id\<close> and a unique \<open>email\<close>, holding
  one record.
\<close>

definition users_schema :: schemadef where
  "users_schema =
     [(''id'', \<lparr>def_type = Some ''integer'', def_unique = False, def_autoIncrement = True\<rparr>),
      (''email'', \<lparr>def_type = Some ''string'', def_unique = True, def_autoIncrement = False\<rparr>)]"

definition users_db :: database where
  "users_db =
     \<lparr>filePath = ''.tmp/disk.db'',
      data = [(''users'', [[(''email'', JStr ''a@x.com''), (''id'', JNum 1)]])],
      schema = [(''users'', users_schema)],
      counters = [(''users'', [(''id'', 1)])],
      writeQueue = []\<rparr>"

text \<open>
  A text parser for examples: it knows the JSON texts \<open>{}\<close>, \<open>[1,2]\<close> and \<open>5\<close> and
  rejects every other argument.
\<close>

definition sample_parse :: "jsval \<Rightarrow> jsval option" where
  "sample_parse v =
     (if v = JStr ''{}'' then Some (JObj 0)
      else if v = JStr ''[1,2]'' then Some (JObj 1)
      else if v = JStr ''5'' then Some (JNum 5)
      else None)"

text \<open>A collection \<open>docs\<close> with a json-typed attribute \<open>body\<close> and no records.\<close>

definition docs_db :: database where
  "docs_db =
     \<lparr>filePath = ''.tmp/disk.db'',
      data = [(''docs'', [])],
      schema = [(''docs'',
        [(''id'', \<lparr>def_type = Some ''integer'', def_unique = False, def_autoIncrement = True\<rparr>),
         (''body'', \<lparr>def_type = Some ''json'', def_unique = False, def_autoIncrement = False\<rparr>)])],
      counters = [(''docs'', [])],
      writeQueue = []\<rparr>"

text \<open>
  A criteria evaluator for examples: the query is a list of attribute and value pairs,
  and a record matches when it holds each value (by \<open>===\<close>) at its attribute.
\<close>

definition where_criteria :: "string \<Rightarrow> (string \<times> jsrecord list) list \<Rightarrow> jsrecord \<Rightarrow> nat list" where
  "where_criteria c dat q =
     map fst (filter (\<lambda>(i, row). list_all (\<lambda>(k, v). get_prop row k = v) q)
                (enumerate 0 (case map_of dat c of None \<Rightarrow> [] | Some rows \<Rightarrow> rows)))"

text \<open>Conversions for examples: the number 5 and the string \<open>5\<close> are equal by \<open>==\<close>.\<close>

definition sample_conv :: "jsval \<Rightarrow> jsval \<Rightarrow> bool" where
  "sample_conv a b = ((a = JNum 5 \<and> b = JStr ''5'') \<or> (a = JStr ''5'' \<and> b = JNum 5))"

text \<open>The collection \<open>users\<close> holding two records.\<close>

definition users2_db :: database where
  "users2_db =
     \<lparr>filePath = ''.tmp/disk.db'',
      data = [(''users'',
         [[(''email'', JStr ''a@x.com''), (''id'', JNum 1), (''role'', JStr ''admin'')],
          [(''email'', JStr ''b@x.com''), (''id'', JNum 2), (''role'', JStr ''admin'')]])],
      schema = [(''users'', users_schema)],
      counters = [(''users'', [(''id'', 2)])],
      writeQueue = []\<rparr>"

text \<open>An instance as the constructor leaves it, and a store of three collections.\<close>

definition fresh_db :: database where
  "fresh_db = \<lparr>filePath = ''.tmp/disk.db'', data = [], schema = [], counters = [], writeQueue = []\<rparr>"

definition blog_db :: database where
  "blog_db =
     \<lparr>filePath = ''.tmp/disk.db'',
      data = [(''users'', [[(''email'', JStr ''a@x.com''), (''id'', JNum 1)]]),
              (''profiles'', [[(''bio'', JStr ''hello'')]]),
              (''posts'', [[(''title'', JStr ''first''), (''id'', JNum 1)]])],
      schema = [(''users'', users_schema), (''profiles'', []), (''posts'', [])],
      counters = [(''users'', [(''id'', 1)]), (''profiles'', []), (''posts'', [(''id'', 1)])],
      writeQueue = []\<rparr>"

text \<open>
  A decoder and a serializer for examples: the decoder knows the text of the empty
  state and rejects every other text; the serializer writes that text for the empty
  state and a fixed text for every other state.
\<close>

definition empty_text :: string where
  \<open>empty_text = ''{"data":{},"schema":{},"counters":{}}''\<close>

definition sample_decode :: "string \<Rightarrow> json_doc option" where
  "sample_decode text = (if text = empty_text then Some (JsonState empty_state) else None)"

definition sample_encode :: "persisted \<Rightarrow> string" where
  "sample_encode state = (if state = empty_state then empty_text else ''{...}'')"

text \<open>
  File systems: no file at all; the data file, empty; the data file with a text that is
  no JSON; the data file with the text of the empty state.
\<close>

definition no_files :: filesystem where
  "no_files = \<lparr>files = [], failing = []\<rparr>"

definition empty_file :: filesystem where
  "empty_file = \<lparr>files = [(''.tmp/disk.db'', [])], failing = []\<rparr>"

definition corrupt_file :: filesystem where
  "corrupt_file = \<lparr>files = [(''.tmp/disk.db'', ''{bad'')], failing = []\<rparr>"

definition stored_empty :: filesystem where
  "stored_empty = \<lparr>files = [(''.tmp/disk.db'', empty_text)], failing = []\<rparr>"

text \<open>The collection \<open>users\<close> without records, its counter of \<open>id\<close> at \<open>2^53\<close>.\<close>

definition big_db :: database where
  "big_db =
     \<lparr>filePath = ''.tmp/disk.db'',
      data = [(''users'', [])],
      schema = [(''users'', users_schema)],
      counters = [(''users'', [(''id'', 9007199254740992)])],
      writeQueue = []\<rparr>"

section \<open>Uniqueness on insert\<close>

text \<open>
  The violations of one unique attribute: one for each record that holds the candidate's
  value, none when the candidate has no value for it.
\<close>

lemma unique_scan_eq:
  "unique_scan a vals rows =
     (if get_prop vals a = JUndefined then []
      else map (\<lambda>_. Violation a (get_prop vals a))
             (filter (\<lambda>row. get_prop row a = get_prop vals a) rows))"
  by (induction rows) (auto simp: strict_eq_def)

lemma count_unique_scan:
  "count_list (unique_scan a vals rows) (Violation k v) =
     (if k = a \<and> v = get_prop vals a \<and> v \<noteq> JUndefined
      then length (filter (\<lambda>row. get_prop row k = v) rows) else 0)"
  by (induction rows) (auto simp: strict_eq_def)

lemma count_unique_attrs_notin:
  "k \<notin> fst ` set sch \<Longrightarrow> count_list (unique_attrs sch vals rows) (Violation k v) = 0"
  by (induction sch vals rows rule: unique_attrs.induct) (auto simp: count_unique_scan)

lemma count_unique_attrs:
  "distinct (map fst sch) \<Longrightarrow>
   count_list (unique_attrs sch vals rows) (Violation k v) =
     (if v = get_prop vals k \<and> v \<noteq> JUndefined \<and> is_unique_attr sch k
      then length (filter (\<lambda>row. get_prop row k = v) rows) else 0)"
proof (induction sch vals rows rule: unique_attrs.induct)
  case (1 vals rows)
  then show ?case by (simp add: is_unique_attr_def)
next
  case (2 attrName attrDef rest vals rows)
  then show ?case
    by (auto simp: count_unique_scan count_unique_attrs_notin is_unique_attr_def
        split: option.splits dest: map_of_SomeD weak_map_of_SomeI)
qed

lemma is_unique_attr_clearjunk: "is_unique_attr (AList.clearjunk sch) k = is_unique_attr sch k"
  by (simp add: is_unique_attr_def map_of_clearjunk)

lemma count_uniqueConstraint:
  "map_of (schema db) c = Some sch \<Longrightarrow>
   count_list (uniqueConstraint db c vals) (Violation k v) =
     (if v = get_prop vals k \<and> v \<noteq> JUndefined \<and> is_unique_attr sch k
      then length (filter (\<lambda>row. get_prop row k = v) (records_of db c)) else 0)"
  by (simp add: uniqueConstraint_def count_unique_attrs is_unique_attr_clearjunk)

text \<open>
  C1. When the candidate has a value for a unique attribute that a record of the
  collection holds, \<open>insert\<close> gives the callback the whole list of violations and
  leaves the instance as it was. The list is not empty, and it holds the violation of
  attribute \<open>k\<close> with value \<open>v\<close> once for each record holding \<open>v\<close> at \<open>k\<close>, when \<open>k\<close> is a
  unique attribute and \<open>v\<close> the candidate's value for it, and not at all otherwise.
\<close>

theorem insert_rejects_unique_collision:
  assumes "filePath db \<noteq> []"
    and "map_of (schema db) c = Some sch"
    and "is_unique_attr sch a"
    and "get_prop vals a \<noteq> JUndefined"
    and "row \<in> set (records_of db c)"
    and "get_prop row a = get_prop vals a"
  shows "insert_record parse db c vals = (Inl (UniquenessErrors (uniqueConstraint db c vals)), db)
     \<and> uniqueConstraint db c vals \<noteq> []
     \<and> (\<forall>k v. count_list (uniqueConstraint db c vals) (Violation k v) =
          (if v = get_prop vals k \<and> v \<noteq> JUndefined \<and> is_unique_attr sch k
           then length (filter (\<lambda>r. get_prop r k = v) (records_of db c)) else 0))"
proof -
  let ?errs = "uniqueConstraint db c vals"
  have cnt: "\<And>k v. count_list ?errs (Violation k v) =
          (if v = get_prop vals k \<and> v \<noteq> JUndefined \<and> is_unique_attr sch k
           then length (filter (\<lambda>r. get_prop r k = v) (records_of db c)) else 0)"
    using assms(2) by (rule count_uniqueConstraint)
  have "filter (\<lambda>r. get_prop r a = get_prop vals a) (records_of db c) \<noteq> []"
    using assms(5,6) by (auto simp: filter_empty_conv)
  then have "0 < count_list ?errs (Violation a (get_prop vals a))"
    using assms(3,4) by (simp add: cnt)
  then have ne: "?errs \<noteq> []"
    by auto
  have "insert_record parse db c vals = (Inl (UniquenessErrors ?errs), db)"
    using assms(1) ne by (simp add: insert_record_def Let_def)
  with ne cnt show ?thesis by blast
qed

theorem insert_rejects_unique_collision_witness:
  "insert_record sample_parse users_db ''users'' [(''email'', JStr ''a@x.com'')] =
     (Inl (UniquenessErrors [Violation ''email'' (JStr ''a@x.com'')]), users_db)
   \<and> length (records_of (snd (insert_record sample_parse users_db ''users'' [(''email'', JStr ''a@x.com'')])) ''users'') = 1"
proof -
  have h1: "filePath users_db \<noteq> []" by (simp add: users_db_def)
  have h2: "map_of (schema users_db) ''users'' = Some users_schema" by (simp add: users_db_def)
  have h3: "is_unique_attr users_schema ''email''" by (simp add: is_unique_attr_def users_schema_def)
  have h4: "get_prop [(''email'', JStr ''a@x.com'')] ''email'' \<noteq> JUndefined" by (simp add: get_prop_def)
  have h5: "[(''email'', JStr ''a@x.com''), (''id'', JNum 1)] \<in> set (records_of users_db ''users'')"
    by (simp add: records_of_def users_db_def)
  have h6: "get_prop [(''email'', JStr ''a@x.com''), (''id'', JNum 1)] ''email'' =
      get_prop [(''email'', JStr ''a@x.com'')] ''email''"
    by (simp add: get_prop_def)
  have u: "uniqueConstraint users_db ''users'' [(''email'', JStr ''a@x.com'')] =
      [Violation ''email'' (JStr ''a@x.com'')]"
    by (simp add: uniqueConstraint_def users_db_def users_schema_def records_of_def get_prop_def
        strict_eq_def)
  have n: "length (records_of users_db ''users'') = 1"
    by (simp add: records_of_def users_db_def)
  from insert_rejects_unique_collision [OF h1 h2 h3 h4 h5 h6, of sample_parse]
  have "insert_record sample_parse users_db ''users'' [(''email'', JStr ''a@x.com'')] =
     (Inl (UniquenessErrors (uniqueConstraint users_db ''users'' [(''email'', JStr ''a@x.com'')])), users_db)"
    by blast
  then show ?thesis using n by (simp add: u)
qed

section \<open>Numbers\<close>

text \<open>Below \<open>2^53\<close> the increment is exact; at \<open>2^53\<close> it stores \<open>2^53\<close> again.\<close>

lemma js_succ_safe:
  assumes "- (2 ^ 53) \<le> n" and "n < 2 ^ 53"
  shows "js_succ n = n + 1"
proof -
  from assms have "\<bar>n + 1\<bar> \<le> 2 ^ 53" by simp
  then show ?thesis by (simp only: js_succ_def round_double_def Let_def if_True)
qed

lemma quantum_small: "a < 2 ^ 53 \<Longrightarrow> quantum a = 1"
  by (simp add: quantum.simps)

lemma quantum_step: "\<not> a < 2 ^ 53 \<Longrightarrow> quantum a = 2 * quantum (a div 2)"
  by (subst quantum.simps) simp

lemma js_succ_limit: "js_succ 9007199254740992 = 9007199254740992"
  by (simp add: js_succ_def round_double_def Let_def quantum_step quantum_small)

lemma js_succ_range:
  assumes "- (2 ^ 53) \<le> n" and "n \<le> 2 ^ 53"
  shows "n \<le> js_succ n \<and> - (2 ^ 53) \<le> js_succ n \<and> js_succ n \<le> 2 ^ 53"
proof (cases "n < 2 ^ 53")
  case True
  with assms show ?thesis by (simp add: js_succ_safe)
next
  case False
  with assms have "n = 9007199254740992" by simp
  then show ?thesis by (simp add: js_succ_limit)
qed

section \<open>Auto-increment\<close>

lemma get_prop_update: "get_prop (AList.update a v vals) k = (if k = a then v else get_prop vals k)"
  by (simp add: get_prop_def update_conv')

lemma get_prop_notin: "k \<notin> fst ` set vals \<Longrightarrow> get_prop vals k = JUndefined"
  by (simp add: get_prop_def map_of_eq_None_iff [THEN iffD2])

lemma counter_value_update:
  "counter_value (db\<lparr>counters := AList.update c (AList.update a n cs) (counters db)\<rparr>) c' k =
     (if c' = c then (if k = a then n else (case map_of cs k of None \<Rightarrow> 0 | Some m \<Rightarrow> m))
      else counter_value db c' k)"
  by (simp add: counter_value_def counters_of_def update_conv')

lemma counter_value_assign:
  "map_of (counters db) c = Some cs \<Longrightarrow>
   counter_value (db\<lparr>counters := AList.update c (AList.update a n cs) (counters db)\<rparr>) c k =
     (if k = a then n else counter_value db c k)"
  by (simp add: counter_value_def counters_of_def update_conv')

lemma counter_value_Some:
  "map_of (counters db) c = Some cs \<Longrightarrow>
   (case map_of cs a of None \<Rightarrow> 0 | Some n \<Rightarrow> n) = counter_value db c a"
  by (simp add: counter_value_def counters_of_def)

lemma counter_value_counters: "counters db1 = counters db \<Longrightarrow> counter_value db1 c k = counter_value db c k"
  by (simp add: counter_value_def counters_of_def)

text \<open>One turn of the loop of \<open>autoIncrement\<close>, by the branch it takes.\<close>

lemma autoIncrement_loop_Cons_skip:
  "\<not> def_autoIncrement attrDef \<or> truthy (get_prop vals attrName) \<Longrightarrow>
   autoIncrement_loop c ((attrName, attrDef) # rest) db vals = autoIncrement_loop c rest db vals"
  by auto

lemma autoIncrement_loop_Cons_throw:
  "def_autoIncrement attrDef \<Longrightarrow> \<not> truthy (get_prop vals attrName) \<Longrightarrow>
   map_of (counters db) c = None \<Longrightarrow>
   autoIncrement_loop c ((attrName, attrDef) # rest) db vals = (Inl TypeError, db)"
  by simp

lemma autoIncrement_loop_Cons_assign:
  "def_autoIncrement attrDef \<Longrightarrow> \<not> truthy (get_prop vals attrName) \<Longrightarrow>
   map_of (counters db) c = Some cs \<Longrightarrow>
   autoIncrement_loop c ((attrName, attrDef) # rest) db vals =
     autoIncrement_loop c rest
       (db\<lparr>counters := AList.update c
              (AList.update attrName (js_succ (case map_of cs attrName of None \<Rightarrow> 0 | Some n \<Rightarrow> n)) cs)
              (counters db)\<rparr>)
       (AList.update attrName (JNum (js_succ (case map_of cs attrName of None \<Rightarrow> 0 | Some n \<Rightarrow> n))) vals)"
  by (simp add: Let_def split: option.splits)

text \<open>The loop touches nothing but the counters of its collection and the candidate.\<close>

lemma autoIncrement_loop_frame:
  "autoIncrement_loop c sch db vals = (res, db') \<Longrightarrow>
     filePath db' = filePath db \<and> data db' = data db \<and> schema db' = schema db
     \<and> writeQueue db' = writeQueue db
     \<and> (map_of (counters db) c \<noteq> None \<longrightarrow> map_of (counters db') c \<noteq> None)
     \<and> (\<forall>c'. c' \<noteq> c \<longrightarrow> map_of (counters db') c' = map_of (counters db) c')"
proof (induction sch arbitrary: db vals)
  case Nil
  then show ?case by simp
next
  case (Cons p rest)
  obtain attrName attrDef where p: "p = (attrName, attrDef)" by (cases p)
  show ?case
  proof (cases "\<not> def_autoIncrement attrDef \<or> truthy (get_prop vals attrName)")
    case True
    then have "autoIncrement_loop c rest db vals = (res, db')"
      using Cons.prems unfolding p by (simp only: autoIncrement_loop_Cons_skip)
    then show ?thesis by (rule Cons.IH)
  next
    case False
    then have ai: "def_autoIncrement attrDef" and nt: "\<not> truthy (get_prop vals attrName)" by auto
    show ?thesis
    proof (cases "map_of (counters db) c")
      case None
      then have "db' = db"
        using Cons.prems unfolding p by (simp only: autoIncrement_loop_Cons_throw [OF ai nt None]) simp
      then show ?thesis by simp
    next
      case (Some cs)
      from Cons.prems Cons.IH show ?thesis
        unfolding p autoIncrement_loop_Cons_assign [OF ai nt Some]
        by (fastforce simp: update_conv')
    qed
  qed
qed

lemma autoIncrement_frame:
  "autoIncrement db c vals = (res, db1) \<Longrightarrow>
   filePath db1 = filePath db \<and> data db1 = data db \<and> schema db1 = schema db
   \<and> writeQueue db1 = writeQueue db"
  by (auto simp: autoIncrement_def split: option.splits dest: autoIncrement_loop_frame)

lemma is_autoIncrement_attr_Cons:
  "is_autoIncrement_attr ((a, d) # rest) k =
     (if k = a then def_autoIncrement d else is_autoIncrement_attr rest k)"
  by (simp add: is_autoIncrement_attr_def)

lemma is_autoIncrement_attr_notin:
  "a \<notin> fst ` set rest \<Longrightarrow> \<not> is_autoIncrement_attr rest a"
  by (simp add: is_autoIncrement_attr_def map_of_eq_None_iff [THEN iffD2])

lemma is_autoIncrement_attr_clearjunk:
  "is_autoIncrement_attr (AList.clearjunk sch) k = is_autoIncrement_attr sch k"
  by (simp add: is_autoIncrement_attr_def map_of_clearjunk)

text \<open>
  With a counters object for the collection the loop does not throw, and each attribute
  of the schema is visited once.
\<close>

lemma autoIncrement_loop_result:
  assumes "distinct (map fst sch)" and "map_of (counters db) c \<noteq> None"
  shows "\<exists>vals' db'. autoIncrement_loop c sch db vals = (Inr vals', db') \<and>
     (\<forall>k. get_prop vals' k =
        (if is_autoIncrement_attr sch k \<and> \<not> truthy (get_prop vals k)
         then JNum (js_succ (counter_value db c k)) else get_prop vals k)) \<and>
     (\<forall>k. counter_value db' c k =
        (if is_autoIncrement_attr sch k \<and> \<not> truthy (get_prop vals k)
         then js_succ (counter_value db c k) else counter_value db c k))"
  using assms
proof (induction sch arbitrary: db vals)
  case Nil
  then show ?case by (simp add: is_autoIncrement_attr_def)
next
  case (Cons p rest)
  obtain a d where p: "p = (a, d)" by (cases p)
  from Cons.prems p have notin: "a \<notin> fst ` set rest" and dist: "distinct (map fst rest)"
    by auto
  show ?case
  proof (cases "\<not> def_autoIncrement d \<or> truthy (get_prop vals a)")
    case True
    from Cons.IH [OF dist Cons.prems(2), of vals] True notin show ?thesis
      unfolding p autoIncrement_loop_Cons_skip [OF True]
      by (auto simp: is_autoIncrement_attr_Cons is_autoIncrement_attr_notin)
  next
    case False
    then have ai: "def_autoIncrement d" and nt: "\<not> truthy (get_prop vals a)" by auto
    from Cons.prems(2) obtain cs where cs: "map_of (counters db) c = Some cs" by auto
    let ?n = "js_succ (counter_value db c a)"
    let ?db1 = "db\<lparr>counters := AList.update c (AList.update a ?n cs) (counters db)\<rparr>"
    let ?vals1 = "AList.update a (JNum ?n) vals"
    have step: "autoIncrement_loop c ((a, d) # rest) db vals = autoIncrement_loop c rest ?db1 ?vals1"
      by (simp only: autoIncrement_loop_Cons_assign [OF ai nt cs] counter_value_Some [OF cs])
    have c1: "map_of (counters ?db1) c \<noteq> None" by (simp add: update_conv')
    from Cons.IH [OF dist c1, of ?vals1] ai nt notin show ?thesis
      unfolding p step
      by (auto simp: is_autoIncrement_attr_Cons is_autoIncrement_attr_notin get_prop_update
          counter_value_assign [OF cs])
  qed
qed

lemma autoIncrement_result:
  assumes "map_of (counters db) c \<noteq> None"
  shows "\<exists>vals1 db1. autoIncrement db c vals = (Inr vals1, db1) \<and>
     (\<forall>k. get_prop vals1 k =
        (if assigned db c vals k then JNum (js_succ (counter_value db c k)) else get_prop vals k)) \<and>
     (\<forall>k. counter_value db1 c k =
        (if assigned db c vals k then js_succ (counter_value db c k) else counter_value db c k)) \<and>
     filePath db1 = filePath db \<and> data db1 = data db \<and> schema db1 = schema db \<and>
     writeQueue db1 = writeQueue db \<and> map_of (counters db1) c \<noteq> None \<and>
     (\<forall>c'. c' \<noteq> c \<longrightarrow> map_of (counters db1) c' = map_of (counters db) c')"
proof (cases "map_of (schema db) c")
  case None
  then show ?thesis using assms
    by (simp add: autoIncrement_def assigned_def schema_of_def is_autoIncrement_attr_def)
next
  case (Some sch)
  have d: "distinct (map fst (AList.clearjunk sch))" by simp
  from autoIncrement_loop_result [OF d assms, of vals]
  obtain vals1 db1 where r: "autoIncrement_loop c (AList.clearjunk sch) db vals = (Inr vals1, db1)"
    and v: "\<forall>k. get_prop vals1 k =
        (if is_autoIncrement_attr (AList.clearjunk sch) k \<and> \<not> truthy (get_prop vals k)
         then JNum (js_succ (counter_value db c k)) else get_prop vals k)"
    and n: "\<forall>k. counter_value db1 c k =
        (if is_autoIncrement_attr (AList.clearjunk sch) k \<and> \<not> truthy (get_prop vals k)
         then js_succ (counter_value db c k) else counter_value db c k)"
    by blast
  from autoIncrement_loop_frame [OF r] assms v n r Some show ?thesis
    by (simp add: autoIncrement_def assigned_def schema_of_def is_autoIncrement_attr_clearjunk)
qed

text \<open>
  A counter between \<open>-(2^53)\<close> and \<open>2^53\<close> is not lowered by the loop and stays in
  that range.
\<close>

lemma autoIncrement_loop_mono:
  assumes "autoIncrement_loop c sch db vals = (res, db')"
    and "- (2 ^ 53) \<le> counter_value db c' k" and "counter_value db c' k \<le> 2 ^ 53"
  shows "counter_value db c' k \<le> counter_value db' c' k \<and> counter_value db' c' k \<le> 2 ^ 53"
  using assms
proof (induction sch arbitrary: db vals)
  case Nil
  then show ?case by simp
next
  case (Cons p rest)
  obtain a d where p: "p = (a, d)" by (cases p)
  show ?case
  proof (cases "\<not> def_autoIncrement d \<or> truthy (get_prop vals a)")
    case True
    then have "autoIncrement_loop c rest db vals = (res, db')"
      using Cons.prems(1) unfolding p by (simp only: autoIncrement_loop_Cons_skip)
    then show ?thesis using Cons.prems(2,3) by (rule Cons.IH)
  next
    case False
    then have ai: "def_autoIncrement d" and nt: "\<not> truthy (get_prop vals a)" by auto
    show ?thesis
    proof (cases "map_of (counters db) c")
      case None
      then have "db' = db"
        using Cons.prems(1) unfolding p
        by (simp only: autoIncrement_loop_Cons_throw [OF ai nt None]) simp
      then show ?thesis using Cons.prems(3) by simp
    next
      case (Some cs)
      let ?n = "js_succ (counter_value db c a)"
      let ?db1 = "db\<lparr>counters := AList.update c (AList.update a ?n cs) (counters db)\<rparr>"
      have r: "autoIncrement_loop c rest ?db1 (AList.update a (JNum ?n) vals) = (res, db')"
        using Cons.prems(1) unfolding p
        by (simp only: autoIncrement_loop_Cons_assign [OF ai nt Some] counter_value_Some [OF Some])
      have s: "counter_value db c' k \<le> counter_value ?db1 c' k
          \<and> - (2 ^ 53) \<le> counter_value ?db1 c' k \<and> counter_value ?db1 c' k \<le> 2 ^ 53"
      proof (cases "c' = c \<and> k = a")
        case True
        then have "counter_value ?db1 c' k = js_succ (counter_value db c' k)"
          by (simp add: counter_value_def counters_of_def update_conv')
        with js_succ_range [OF Cons.prems(2,3)] show ?thesis by simp
      next
        case False
        then have "counter_value ?db1 c' k = counter_value db c' k"
          using Some by (auto simp: counter_value_def counters_of_def update_conv')
        with Cons.prems(2,3) show ?thesis by simp
      qed
      from Cons.IH [OF r] s
      have "counter_value ?db1 c' k \<le> counter_value db' c' k \<and> counter_value db' c' k \<le> 2 ^ 53"
        by blast
      with s show ?thesis by linarith
    qed
  qed
qed

section \<open>Type coercion\<close>

lemma serialize_key_get:
  "get_prop (serialize_key parse db c key vals) k =
     (if k = key \<and> is_json_attr db c key then coerced parse (get_prop vals key) else get_prop vals k)"
  by (auto simp: serialize_key_def is_json_attr_def coerced_def get_prop_update split: option.splits)

lemma serialize_key_keys:
  "key \<in> fst ` set vals \<Longrightarrow> map fst (serialize_key parse db c key vals) = map fst vals"
  by (auto simp: serialize_key_def update_keys split: option.splits)

lemma fold_serialize_key_get:
  "distinct ks \<Longrightarrow>
   get_prop (fold (serialize_key parse db c) ks vals) k =
     (if k \<in> set ks \<and> is_json_attr db c k then coerced parse (get_prop vals k) else get_prop vals k)"
  by (induction ks arbitrary: vals) (auto simp: serialize_key_get)

lemma fold_serialize_key_keys:
  "set ks \<subseteq> fst ` set vals \<Longrightarrow> map fst (fold (serialize_key parse db c) ks vals) = map fst vals"
proof (induction ks arbitrary: vals)
  case Nil
  then show ?case by simp
next
  case (Cons key ks)
  then have k: "map fst (serialize_key parse db c key vals) = map fst vals"
    by (simp add: serialize_key_keys)
  then have "fst ` set (serialize_key parse db c key vals) = fst ` set vals"
    by (metis set_map)
  with Cons show ?case by (simp add: k)
qed

lemma coerced_undefined: "coerced parse JUndefined = JUndefined"
  by (simp add: coerced_def)

lemma coerced_num: "coerced parse (JNum n) = JNum n"
  by (simp add: coerced_def)

lemma serializeValues_get:
  "get_prop (serializeValues parse db c vals) k =
     (if is_json_attr db c k then coerced parse (get_prop vals k) else get_prop vals k)"
proof -
  have d: "distinct (map fst (AList.clearjunk vals))" by simp
  have s: "set (map fst (AList.clearjunk vals)) = fst ` set vals"
    using clearjunk_keys_set [of vals] by simp
  show ?thesis
    unfolding serializeValues_def fold_serialize_key_get [OF d] s
    by (auto simp: get_prop_notin coerced_undefined)
qed

lemma serializeValues_keys: "map fst (serializeValues parse db c vals) = map fst vals"
  unfolding serializeValues_def
  by (rule fold_serialize_key_keys) (use clearjunk_keys_set [of vals] in simp)

lemma is_json_attr_schema: "schema db1 = schema db \<Longrightarrow> is_json_attr db1 c k = is_json_attr db c k"
  by (simp add: is_json_attr_def)

lemma schema_of_cong: "schema db1 = schema db \<Longrightarrow> schema_of db1 c = schema_of db c"
  by (simp add: schema_of_def)

section \<open>Insert\<close>

lemma insert_record_rejected:
  "filePath db \<noteq> [] \<Longrightarrow> uniqueConstraint db c vals \<noteq> [] \<Longrightarrow>
   insert_record parse db c vals = (Inl (UniquenessErrors (uniqueConstraint db c vals)), db)"
  by (simp add: insert_record_def Let_def)

lemma insert_record_accepted:
  assumes "filePath db \<noteq> []" and "uniqueConstraint db c vals = []"
    and "map_of (data db) c = Some rows" and "map_of (counters db) c \<noteq> None"
  shows "\<exists>stored db'. insert_record parse db c vals = (Inr stored, db') \<and>
     (\<forall>k. get_prop stored k =
        (let v = (if assigned db c vals k then JNum (js_succ (counter_value db c k)) else get_prop vals k)
         in if is_json_attr db c k then coerced parse v else v)) \<and>
     (\<forall>k. counter_value db' c k =
        (if assigned db c vals k then js_succ (counter_value db c k) else counter_value db c k)) \<and>
     filePath db' = filePath db \<and> schema db' = schema db \<and>
     data db' = AList.update c (rows @ [stored]) (data db) \<and>
     writeQueue db' = writeQueue db @ [c] \<and> map_of (counters db') c \<noteq> None \<and>
     (\<forall>c'. c' \<noteq> c \<longrightarrow> map_of (counters db') c' = map_of (counters db) c')"
proof -
  from autoIncrement_result [OF assms(4), of vals]
  obtain vals1 db1 where r: "autoIncrement db c vals = (Inr vals1, db1)"
    and v: "\<forall>k. get_prop vals1 k =
        (if assigned db c vals k then JNum (js_succ (counter_value db c k)) else get_prop vals k)"
    and n: "\<forall>k. counter_value db1 c k =
        (if assigned db c vals k then js_succ (counter_value db c k) else counter_value db c k)"
    and f: "filePath db1 = filePath db" "data db1 = data db" "schema db1 = schema db"
      "writeQueue db1 = writeQueue db" "map_of (counters db1) c \<noteq> None"
      "\<forall>c'. c' \<noteq> c \<longrightarrow> map_of (counters db1) c' = map_of (counters db) c'"
    by blast
  let ?stored = "serializeValues parse db1 c vals1"
  let ?db' = "db1\<lparr>data := AList.update c (rows @ [?stored]) (data db1),
                  writeQueue := writeQueue db1 @ [c]\<rparr>"
  have i: "insert_record parse db c vals = (Inr ?stored, ?db')"
    using assms(1,2,3) r f(2) by (simp add: insert_record_def Let_def)
  have g: "\<forall>k. get_prop ?stored k =
        (let v = (if assigned db c vals k then JNum (js_succ (counter_value db c k)) else get_prop vals k)
         in if is_json_attr db c k then coerced parse v else v)"
    using v by (simp add: serializeValues_get is_json_attr_schema [OF f(3)] Let_def)
  have cv: "\<forall>k. counter_value ?db' c k = counter_value db1 c k"
    by (simp add: counter_value_def counters_of_def)
  show ?thesis
    using i g cv n f by (intro exI [of _ ?stored] exI [of _ ?db']) simp
qed

lemma insert_record_mono:
  assumes "insert_record parse db c vals = (out, db')"
    and "- (2 ^ 53) \<le> counter_value db c' k" and "counter_value db c' k \<le> 2 ^ 53"
  shows "counter_value db c' k \<le> counter_value db' c' k"
proof (cases "filePath db = [] \<or> uniqueConstraint db c vals \<noteq> []")
  case True
  with assms(1) have "db' = db" by (auto simp: insert_record_def Let_def split: if_splits)
  then show ?thesis by simp
next
  case False
  obtain res db1 where a: "autoIncrement db c vals = (res, db1)" by (cases "autoIncrement db c vals")
  have m: "counter_value db c' k \<le> counter_value db1 c' k"
  proof (cases "map_of (schema db) c")
    case None
    with a show ?thesis by (simp add: autoIncrement_def)
  next
    case (Some sch)
    with a have "autoIncrement_loop c (AList.clearjunk sch) db vals = (res, db1)"
      by (simp add: autoIncrement_def)
    from autoIncrement_loop_mono [OF this assms(2,3)] show ?thesis by simp
  qed
  have "counter_value db' c' k = counter_value db1 c' k"
    using assms(1) False a
    by (auto simp: insert_record_def Let_def counter_value_def counters_of_def
        split: sum.splits option.splits)
  with m show ?thesis by simp
qed

lemma upt_values_step:
  "JNum (n + 1) # map (\<lambda>i. JNum (n + 1 + 1 + int i)) [0..<m] =
   map (\<lambda>i. JNum (n + 1 + int i)) [0..<Suc m]"
proof -
  have "[0..<Suc m] = 0 # map Suc [0..<m]"
    by (simp add: upt_conv_Cons map_Suc_upt del: upt_Suc)
  then show ?thesis by (simp add: o_def add.commute add.left_commute del: upt_Suc)
qed

lemma all_pass_take: "all_pass parse db c vss \<Longrightarrow> all_pass parse db c (take n vss)"
  by (induction vss arbitrary: db n) (auto simp: take_Cons split: nat.splits)

text \<open>
  Inserts that omit the attribute and pass the uniqueness check are all accepted, and
  take the values after the counter one by one, while the counter stays up to \<open>2^53\<close>.
\<close>

lemma insert_all_pass:
  assumes "filePath db \<noteq> []" and "is_autoIncrement_attr (schema_of db c) a"
    and "map_of (data db) c \<noteq> None" and "map_of (counters db) c \<noteq> None"
    and "\<forall>vals\<in>set vss. a \<notin> fst ` set vals"
    and "all_pass parse db c vss"
    and "- (2 ^ 53) \<le> counter_value db c a"
    and "counter_value db c a + int (length vss) \<le> 2 ^ 53"
  shows "\<exists>stored db'. insert_all parse db c vss = (map Inr stored, db') \<and>
     length stored = length vss \<and>
     map (\<lambda>r. get_prop r a) stored =
       map (\<lambda>i. JNum (counter_value db c a + 1 + int i)) [0..<length vss] \<and>
     counter_value db' c a = counter_value db c a + int (length vss)"
  using assms
proof (induction vss arbitrary: db)
  case Nil
  then show ?case by simp
next
  case (Cons vals rest)
  from Cons.prems(5) have omit: "get_prop vals a = JUndefined"
    and rest: "\<forall>vals\<in>set rest. a \<notin> fst ` set vals"
    by (simp_all add: get_prop_notin)
  from Cons.prems(6) have u: "uniqueConstraint db c vals = []"
    and pass: "all_pass parse (snd (insert_record parse db c vals)) c rest"
    by simp_all
  from Cons.prems(7,8) have safe: "js_succ (counter_value db c a) = counter_value db c a + 1"
    by (intro js_succ_safe) simp_all
  from Cons.prems(3) obtain rows where rows: "map_of (data db) c = Some rows" by auto
  have asg: "assigned db c vals a"
    using Cons.prems(2) omit by (simp add: assigned_def)
  from insert_record_accepted [OF Cons.prems(1) u rows Cons.prems(4), of parse]
  obtain stored1 db1 where i: "insert_record parse db c vals = (Inr stored1, db1)"
    and g: "\<forall>k. get_prop stored1 k =
      (let v = (if assigned db c vals k then JNum (js_succ (counter_value db c k))
                else get_prop vals k)
       in if is_json_attr db c k then coerced parse v else v)"
    and n: "\<forall>k. counter_value db1 c k =
      (if assigned db c vals k then js_succ (counter_value db c k) else counter_value db c k)"
    and f: "filePath db1 = filePath db" "schema db1 = schema db"
      "data db1 = AList.update c (rows @ [stored1]) (data db)"
      "map_of (counters db1) c \<noteq> None"
    by blast
  have sa: "get_prop stored1 a = JNum (counter_value db c a + 1)"
    using g asg by (simp add: coerced_num Let_def safe)
  have na: "counter_value db1 c a = counter_value db c a + 1"
    using n asg by (simp add: safe)
  have p1: "filePath db1 \<noteq> []" using f(1) Cons.prems(1) by simp
  have p2: "is_autoIncrement_attr (schema_of db1 c) a"
    using Cons.prems(2) by (simp add: schema_of_cong [OF f(2)])
  have p3: "map_of (data db1) c \<noteq> None" by (simp add: f(3) update_conv')
  have p6: "all_pass parse db1 c rest" using pass i by simp
  have p7: "- (2 ^ 53) \<le> counter_value db1 c a" using Cons.prems(7) na by simp
  have p8: "counter_value db1 c a + int (length rest) \<le> 2 ^ 53" using Cons.prems(8) na by simp
  from Cons.IH [OF p1 p2 p3 f(4) rest p6 p7 p8]
  obtain stored db' where r: "insert_all parse db1 c rest = (map Inr stored, db')"
    "length stored = length rest"
    "map (\<lambda>r. get_prop r a) stored =
      map (\<lambda>i. JNum (counter_value db1 c a + 1 + int i)) [0..<length rest]"
    "counter_value db' c a = counter_value db1 c a + int (length rest)"
    by blast
  have "insert_all parse db c (vals # rest) = (map Inr (stored1 # stored), db')"
    using i r(1) by simp
  moreover have "length (stored1 # stored) = length (vals # rest)"
    using r(2) by simp
  moreover have "map (\<lambda>r. get_prop r a) (stored1 # stored) =
      map (\<lambda>i. JNum (counter_value db c a + 1 + int i)) [0..<length (vals # rest)]"
    using sa r(3) upt_values_step [of "counter_value db c a" "length rest"]
    by (simp add: na del: upt_Suc)
  moreover have "counter_value db' c a = counter_value db c a + int (length (vals # rest))"
    using r(4) na by simp
  ultimately show ?case by blast
qed

text \<open>Update and destroy, createCollection and dropCollection leave the counters alone.\<close>

lemma update_loop_counters:
  "update_loop c vals idx db results = (res, db') \<Longrightarrow> counters db' = counters db"
proof (induction idx arbitrary: db results)
  case Nil
  then show ?case by simp
next
  case (Cons i rest)
  show ?case
  proof (cases "map_of (data db) c")
    case None
    with Cons.prems show ?thesis by simp
  next
    case (Some rows)
    show ?thesis
    proof (cases "length rows \<le> i")
      case True
      with Some Cons.prems show ?thesis by simp
    next
      case False
      with Some Cons.prems Cons.IH show ?thesis by (fastforce simp: Let_def)
    qed
  qed
qed

lemma update_counters: "counters (snd (update criteria conv db c q vals)) = counters db"
proof -
  have a: "\<And>idx. counters (snd (update_apply c vals idx db)) = counters db"
    by (auto simp: update_apply_def split: prod.splits sum.splits dest: update_loop_counters)
  show ?thesis
    by (simp add: update_def Let_def a split: option.splits)
qed

lemma destroy_counters: "counters (snd (destroy criteria db c q)) = counters db"
  by (simp add: destroy_def Let_def split: sum.splits)

lemma createCollection_counter_value:
  "counter_value (snd (createCollection db c defn)) c' k = counter_value db c' k"
  by (simp add: createCollection_def setCollection_def Let_def counter_value_def counters_of_def
      update_conv' split: option.splits)

lemma fold_drop_one_counters: "counters (fold drop_one names db) = counters db"
  by (induction names arbitrary: db) (simp_all add: drop_one_def)

lemma dropCollection_counters: "counters (fst (snd (dropCollection encode db fs c relations))) = counters db"
  by (simp add: dropCollection_def Let_def fold_drop_one_counters drop_one_def split: prod.splits)

text \<open>
  C2, as the claim states it, fails three ways. Of two inserts that omit \<open>id\<close>, the
  second with the email of the first, the second is rejected for uniqueness and the
  counter ends at \<open>counter + 1\<close>, not \<open>counter + 2\<close>. With the counter at \<open>2^53\<close>
  two inserts both receive \<open>2^53\<close>, the increment of a double being lost there. And
  \<open>read\<close> takes the counters of the file, here none, in place of a counter of 1.
\<close>

theorem sequential_inserts_counterexample:
  "fst (insert_all sample_parse users_db ''users''
          [[(''email'', JStr ''b@x.com'')], [(''email'', JStr ''b@x.com'')]]) =
     [Inr [(''email'', JStr ''b@x.com''), (''id'', JNum 2)],
      Inl (UniquenessErrors [Violation ''email'' (JStr ''b@x.com'')])]
   \<and> counter_value users_db ''users'' ''id'' = 1
   \<and> counter_value (snd (insert_all sample_parse users_db ''users''
          [[(''email'', JStr ''b@x.com'')], [(''email'', JStr ''b@x.com'')]])) ''users'' ''id'' = 2
   \<and> fst (insert_all sample_parse big_db ''users''
          [[(''email'', JStr ''b@x.com'')], [(''email'', JStr ''c@x.com'')]]) =
     [Inr [(''email'', JStr ''b@x.com''), (''id'', JNum 9007199254740992)],
      Inr [(''email'', JStr ''c@x.com''), (''id'', JNum 9007199254740992)]]
   \<and> counter_value (fst (snd (read sample_decode users_db stored_empty))) ''users'' ''id'' = 0"
proof -
  have a: "insert_all sample_parse users_db ''users''
          [[(''email'', JStr ''b@x.com'')], [(''email'', JStr ''b@x.com'')]] =
     ([Inr [(''email'', JStr ''b@x.com''), (''id'', JNum 2)],
       Inl (UniquenessErrors [Violation ''email'' (JStr ''b@x.com'')])],
      users_db\<lparr>data := [(''users'',
           [[(''email'', JStr ''a@x.com''), (''id'', JNum 1)],
            [(''email'', JStr ''b@x.com''), (''id'', JNum 2)]])],
         counters := [(''users'', [(''id'', 2)])],
         writeQueue := [''users'']\<rparr>)"
    by (simp add: insert_record_def uniqueConstraint_def autoIncrement_def serializeValues_def
        serialize_key_def users_db_def users_schema_def get_prop_def strict_eq_def records_of_def
        Let_def js_succ_safe)
  have b: "counter_value users_db ''users'' ''id'' = 1"
    by (simp add: counter_value_def counters_of_def users_db_def)
  have c: "fst (insert_all sample_parse big_db ''users''
          [[(''email'', JStr ''b@x.com'')], [(''email'', JStr ''c@x.com'')]]) =
     [Inr [(''email'', JStr ''b@x.com''), (''id'', JNum 9007199254740992)],
      Inr [(''email'', JStr ''c@x.com''), (''id'', JNum 9007199254740992)]]"
    by (simp add: insert_record_def uniqueConstraint_def autoIncrement_def serializeValues_def
        serialize_key_def big_db_def users_schema_def get_prop_def strict_eq_def records_of_def
        Let_def js_succ_limit)
  have d: "counter_value (fst (snd (read sample_decode users_db stored_empty))) ''users'' ''id'' = 0"
    by (simp add: read_def fs_exists_def fs_readFile_def JSON_parse_text_def sample_decode_def
        empty_text_def empty_state_def stored_empty_def users_db_def counter_value_def
        counters_of_def Let_def)
  show ?thesis
    unfolding a using b c d by (simp add: counter_value_def counters_of_def)
qed

text \<open>
  C2, amended. On a registered collection with counters, \<open>N\<close> inserts that omit the
  auto-increment attribute \<open>a\<close> and pass the uniqueness check, with the counter not
  below \<open>-(2^53)\<close> and \<open>counter + N\<close> not above \<open>2^53\<close>: all are accepted, their
  records carry \<open>counter + 1, ..., counter + N\<close> at \<open>a\<close> in order, whatever else they
  hold, the counter is \<open>counter + n\<close> after the first \<open>n\<close> of them and \<open>counter + N\<close>
  at the end. An insert rejected for uniqueness leaves the instance as it was. No
  insert lowers the counter, and update, destroy, createCollection and dropCollection
  change no counter. (Of \<open>read\<close> nothing is said: it replaces the counters.)
\<close>

theorem sequential_inserts_autoIncrement:
  assumes "filePath db \<noteq> []"
    and "is_autoIncrement_attr (schema_of db c) a"
    and "map_of (data db) c \<noteq> None"
    and "map_of (counters db) c \<noteq> None"
    and "\<forall>vals\<in>set vss. a \<notin> fst ` set vals"
    and "all_pass parse db c vss"
    and "- (2 ^ 53) \<le> counter_value db c a"
    and "counter_value db c a + int (length vss) \<le> 2 ^ 53"
  shows "(\<exists>stored db'. insert_all parse db c vss = (map Inr stored, db')
            \<and> length stored = length vss
            \<and> map (\<lambda>r. get_prop r a) stored =
                map (\<lambda>i. JNum (counter_value db c a + 1 + int i)) [0..<length vss]
            \<and> counter_value db' c a = counter_value db c a + int (length vss))
     \<and> (\<forall>n\<le>length vss.
           counter_value (snd (insert_all parse db c (take n vss))) c a =
             counter_value db c a + int n)
     \<and> (\<forall>cand. uniqueConstraint db c cand \<noteq> [] \<longrightarrow> snd (insert_record parse db c cand) = db)
     \<and> (\<forall>cand. counter_value db c a \<le> counter_value (snd (insert_record parse db c cand)) c a)
     \<and> (\<forall>c' k. counter_value (snd (update criteria conv db c q vals)) c' k = counter_value db c' k)
     \<and> (\<forall>c' k. counter_value (snd (destroy criteria db c q)) c' k = counter_value db c' k)
     \<and> (\<forall>c' k. counter_value (snd (createCollection db c defn)) c' k = counter_value db c' k)
     \<and> (\<forall>c' k. counter_value (fst (snd (dropCollection encode db fs c relations))) c' k =
           counter_value db c' k)"
proof -
  note a = insert_all_pass [OF assms]
  have b: "\<forall>n\<le>length vss.
           counter_value (snd (insert_all parse db c (take n vss))) c a =
             counter_value db c a + int n"
  proof (intro allI impI)
    fix n
    assume n: "n \<le> length vss"
    have o: "\<forall>vals\<in>set (take n vss). a \<notin> fst ` set vals"
      using assms(5) by (auto dest: in_set_takeD)
    have h: "counter_value db c a + int (length (take n vss)) \<le> 2 ^ 53"
      using assms(8) n by simp
    from insert_all_pass [OF assms(1-4) o all_pass_take [OF assms(6)] assms(7) h]
    show "counter_value (snd (insert_all parse db c (take n vss))) c a =
             counter_value db c a + int n"
      using n by auto
  qed
  have r: "\<forall>cand. uniqueConstraint db c cand \<noteq> [] \<longrightarrow> snd (insert_record parse db c cand) = db"
    using assms(1) by (simp add: insert_record_rejected)
  have le: "counter_value db c a \<le> 2 ^ 53"
    using assms(8) by simp
  have m: "\<forall>cand. counter_value db c a \<le> counter_value (snd (insert_record parse db c cand)) c a"
  proof
    fix cand
    have "insert_record parse db c cand =
        (fst (insert_record parse db c cand), snd (insert_record parse db c cand))"
      by simp
    from insert_record_mono [OF this assms(7) le]
    show "counter_value db c a \<le> counter_value (snd (insert_record parse db c cand)) c a" .
  qed
  have f: "\<forall>c' k. counter_value (snd (update criteria conv db c q vals)) c' k = counter_value db c' k"
    by (simp add: counter_value_counters [OF update_counters])
  have g: "\<forall>c' k. counter_value (snd (destroy criteria db c q)) c' k = counter_value db c' k"
    by (simp add: counter_value_counters [OF destroy_counters])
  have h: "\<forall>c' k. counter_value (snd (createCollection db c defn)) c' k = counter_value db c' k"
    by (simp add: createCollection_counter_value)
  have i: "\<forall>c' k. counter_value (fst (snd (dropCollection encode db fs c relations))) c' k =
           counter_value db c' k"
    by (simp add: counter_value_counters [OF dropCollection_counters])
  from a b r m f g h i show ?thesis by blast
qed

theorem sequential_inserts_autoIncrement_witness:
  "map (\<lambda>out. case out of Inl e \<Rightarrow> JUndefined | Inr r \<Rightarrow> get_prop r ''id'')
     (fst (insert_all sample_parse users_db ''users''
        [[(''email'', JStr ''b@x.com'')], [(''name'', JStr ''c''), (''email'', JStr ''c@x.com'')]])) =
     [JNum 2, JNum 3]
   \<and> counter_value (snd (insert_all sample_parse users_db ''users''
        [[(''email'', JStr ''b@x.com'')], [(''name'', JStr ''c''), (''email'', JStr ''c@x.com'')]]))
       ''users'' ''id'' = 3"
proof -
  let ?vss = "[[(''email'', JStr ''b@x.com'')], [(''name'', JStr ''c''), (''email'', JStr ''c@x.com'')]]"
  have h1: "filePath users_db \<noteq> []" by (simp add: users_db_def)
  have h2: "is_autoIncrement_attr (schema_of users_db ''users'') ''id''"
    by (simp add: is_autoIncrement_attr_def schema_of_def users_db_def users_schema_def)
  have h3: "map_of (data users_db) ''users'' \<noteq> None" by (simp add: users_db_def)
  have h4: "map_of (counters users_db) ''users'' \<noteq> None" by (simp add: users_db_def)
  have h5: "\<forall>vals\<in>set ?vss. ''id'' \<notin> fst ` set vals"
    by simp
  have h6: "all_pass sample_parse users_db ''users'' ?vss"
    by (simp add: insert_record_def uniqueConstraint_def autoIncrement_def serializeValues_def
        serialize_key_def users_db_def users_schema_def get_prop_def strict_eq_def records_of_def
        Let_def js_succ_safe)
  have c0: "counter_value users_db ''users'' ''id'' = 1"
    by (simp add: counter_value_def counters_of_def users_db_def)
  have h7: "- (2 ^ 53) \<le> counter_value users_db ''users'' ''id''" by (simp add: c0)
  have h8: "counter_value users_db ''users'' ''id'' + int (length ?vss) \<le> 2 ^ 53" by (simp add: c0)
  have v: "[0..<2] = [0, 1]" by (simp add: upt_conv_Cons)
  from sequential_inserts_autoIncrement [OF h1 h2 h3 h4 h5 h6 h7 h8, THEN conjunct1]
  obtain stored db' where s: "insert_all sample_parse users_db ''users'' ?vss = (map Inr stored, db')"
    and "map (\<lambda>r. get_prop r ''id'') stored =
      map (\<lambda>i. JNum (counter_value users_db ''users'' ''id'' + 1 + int i)) [0..<length ?vss]"
    and "counter_value db' ''users'' ''id'' = counter_value users_db ''users'' ''id'' + int (length ?vss)"
    by blast
  then show ?thesis
    unfolding s by (simp add: c0 v o_def)
qed

text \<open>
  C7. The test of \<open>autoIncrement\<close> for a supplied value is \<open>if (values[attrName])\<close>: a
  supplied value that is not truthy is overwritten. Here the candidate supplies
  \<open>id: 0\<close> while the counter is 1; the candidate leaves with \<open>id: 2\<close> and the counter
  is 2.
\<close>

theorem autoIncrement_overwrites_falsy_value:
  "autoIncrement users_db ''users'' [(''id'', JNum 0), (''email'', JStr ''z@x.com'')] =
     (Inr [(''id'', JNum 2), (''email'', JStr ''z@x.com'')],
      users_db\<lparr>counters := [(''users'', [(''id'', 2)])]\<rparr>)"
  by (simp add: autoIncrement_def users_db_def users_schema_def get_prop_def Let_def js_succ_safe)

text \<open>
  C8. An insert that passes the uniqueness check into a registered collection succeeds
  whatever the parser does. The stored record has the keys of the candidate after
  auto-increment; at a json-typed attribute of the schema it holds the parsed value
  when parsing succeeds and the value as it was when parsing throws; at every other
  key it holds the value as it was.
\<close>

theorem insert_coercion_lenient:
  assumes "filePath db \<noteq> []"
    and "uniqueConstraint db c vals = []"
    and "autoIncrement db c vals = (Inr vals1, db1)"
    and "map_of (data db) c = Some rows"
  shows "\<exists>stored db'. insert_record parse db c vals = (Inr stored, db')
     \<and> stored = serializeValues parse db1 c vals1
     \<and> records_of db' c = rows @ [stored]
     \<and> map fst stored = map fst vals1
     \<and> (\<forall>k. get_prop stored k =
          (if is_json_attr db c k
           then (case JSON_parse parse (get_prop vals1 k) of
                   None \<Rightarrow> get_prop vals1 k
                 | Some val \<Rightarrow> val)
           else get_prop vals1 k))"
proof -
  from autoIncrement_frame [OF assms(3)]
  have f: "data db1 = data db" "schema db1 = schema db" by simp_all
  let ?stored = "serializeValues parse db1 c vals1"
  let ?db' = "db1\<lparr>data := AList.update c (rows @ [?stored]) (data db1),
                  writeQueue := writeQueue db1 @ [c]\<rparr>"
  have i: "insert_record parse db c vals = (Inr ?stored, ?db')"
    using assms f(1) by (simp add: insert_record_def Let_def)
  have r: "records_of ?db' c = rows @ [?stored]"
    by (simp add: records_of_def update_conv')
  have g: "\<forall>k. get_prop ?stored k =
          (if is_json_attr db c k
           then (case JSON_parse parse (get_prop vals1 k) of
                   None \<Rightarrow> get_prop vals1 k
                 | Some val \<Rightarrow> val)
           else get_prop vals1 k)"
    by (simp add: serializeValues_get is_json_attr_schema [OF f(2)] coerced_def)
  from i r g show ?thesis
    by (intro exI [of _ ?stored] exI [of _ ?db']) (simp add: serializeValues_keys)
qed

theorem insert_coercion_lenient_witness:
  "fst (insert_record sample_parse docs_db ''docs''
          [(''body'', JStr ''{bad''), (''extra'', JStr ''[1,2]'')]) =
     Inr [(''body'', JStr ''{bad''), (''extra'', JStr ''[1,2]''), (''id'', JNum 1)]"
proof -
  let ?vals = "[(''body'', JStr ''{bad''), (''extra'', JStr ''[1,2]'')]"
  let ?vals1 = "[(''body'', JStr ''{bad''), (''extra'', JStr ''[1,2]''), (''id'', JNum 1)]"
  let ?db1 = "docs_db\<lparr>counters := [(''docs'', [(''id'', 1)])]\<rparr>"
  have h1: "filePath docs_db \<noteq> []" by (simp add: docs_db_def)
  have h2: "uniqueConstraint docs_db ''docs'' ?vals = []"
    by (simp add: uniqueConstraint_def docs_db_def)
  have h3: "autoIncrement docs_db ''docs'' ?vals = (Inr ?vals1, ?db1)"
    by (simp add: autoIncrement_def docs_db_def get_prop_def Let_def js_succ_safe)
  have h4: "map_of (data docs_db) ''docs'' = Some []" by (simp add: docs_db_def)
  have s: "serializeValues sample_parse ?db1 ''docs'' ?vals1 = ?vals1"
    by (simp add: serializeValues_def serialize_key_def docs_db_def get_prop_def sample_parse_def)
  from insert_coercion_lenient [OF h1 h2 h3 h4, of sample_parse]
  obtain stored db' where
    "insert_record sample_parse docs_db ''docs'' ?vals = (Inr stored, db')"
    "stored = serializeValues sample_parse ?db1 ''docs'' ?vals1"
    by blast
  then show ?thesis by (simp add: s)
qed

section \<open>Update\<close>

text \<open>
  With the lodash that package.json declares, \<open>update\<close> ends at its call of
  \<open>_.where\<close>: whatever the query matches and whatever the values are, it throws the
  TypeError, with the instance as it was.
\<close>

lemma update_throws:
  "filePath db \<noteq> [] \<Longrightarrow> update criteria conv db c q vals = (Inl TypeError, db)"
  by (simp add: update_def lodash_where_def Let_def)

text \<open>
  C3. The claim is what the comment in \<open>update\<close> describes, and the code does not do
  it. One record matches \<open>id = 1\<close>, with email \<open>a@x.com\<close>. An update of it to another
  email ends in the TypeError, not in the violation of \<open>email\<close>; an update that keeps
  the email and sets \<open>role\<close> ends in the TypeError, not in the updated record; and an
  update of the two records that match \<open>role = admin\<close> ends in the TypeError, not in
  the uniqueness error.
\<close>

theorem update_throws_on_match:
  "where_criteria ''users'' (data users2_db) [(''id'', JNum 1)] = [0]
   \<and> update where_criteria sample_conv users2_db ''users'' [(''id'', JNum 1)]
        [(''email'', JStr ''z@x.com'')] = (Inl TypeError, users2_db)
   \<and> update where_criteria sample_conv users2_db ''users'' [(''id'', JNum 1)]
        [(''email'', JStr ''a@x.com''), (''role'', JStr ''user'')] = (Inl TypeError, users2_db)
   \<and> where_criteria ''users'' (data users2_db) [(''role'', JStr ''admin'')] = [0, 1]
   \<and> update where_criteria sample_conv users2_db ''users'' [(''role'', JStr ''admin'')]
        [(''email'', JStr ''a@x.com'')] = (Inl TypeError, users2_db)"
proof -
  have h: "filePath users2_db \<noteq> []" by (simp add: users2_db_def)
  have m1: "where_criteria ''users'' (data users2_db) [(''id'', JNum 1)] = [0]"
    by (simp add: where_criteria_def users2_db_def get_prop_def)
  have m2: "where_criteria ''users'' (data users2_db) [(''role'', JStr ''admin'')] = [0, 1]"
    by (simp add: where_criteria_def users2_db_def get_prop_def)
  from m1 m2 show ?thesis by (simp add: update_throws [OF h])
qed

text \<open>
  C9. The claim is what the code is written to do, and the code does not do it. No
  record matches \<open>id = 7\<close>; the update ends in the TypeError of \<open>_.where\<close>, not in the
  empty list, and nothing is pushed on the write queue.
\<close>

theorem update_throws_on_no_match:
  "where_criteria ''users'' (data users2_db) [(''id'', JNum 7)] = []
   \<and> update where_criteria sample_conv users2_db ''users'' [(''id'', JNum 7)]
        [(''email'', JStr ''a@x.com''), (''role'', JStr ''user'')] = (Inl TypeError, users2_db)
   \<and> writeQueue (snd (update where_criteria sample_conv users2_db ''users'' [(''id'', JNum 7)]
        [(''email'', JStr ''a@x.com''), (''role'', JStr ''user'')])) = []"
proof -
  have h: "filePath users2_db \<noteq> []" by (simp add: users2_db_def)
  have m: "where_criteria ''users'' (data users2_db) [(''id'', JNum 7)] = []"
    by (simp add: where_criteria_def users2_db_def get_prop_def)
  have q: "writeQueue users2_db = []" by (simp add: users2_db_def)
  from m q show ?thesis by (simp add: update_throws [OF h])
qed

section \<open>Persistence\<close>

text \<open>
  C4, as the claim states it, fails on a data file that exists and is empty: the empty
  text is no JSON, and \<open>read\<close> gives the empty state without an error, the test
  \<open>if(!data)\<close> coming before \<open>JSON.parse\<close>.
\<close>

theorem read_empty_file_counterexample:
  "fs_exists empty_file (filePath fresh_db)
   \<and> fs_readFile empty_file (filePath fresh_db) = Inr []
   \<and> JSON_parse_text sample_decode [] = None
   \<and> read sample_decode fresh_db empty_file = (Inr empty_state, fresh_db, empty_file)"
  by (simp add: fs_exists_def fs_readFile_def JSON_parse_text_def read_def fresh_db_def
      empty_file_def)

text \<open>
  C4, amended. With a file path: when the file does not exist and can be created,
  \<open>read\<close> creates it empty and gives the empty state; when it exists with a text that
  is not empty and does not decode, \<open>read\<close> gives the SyntaxError and takes nothing
  from the file; when it exists and is empty, \<open>read\<close> gives the empty state. In each
  case \<open>schema\<close> and \<open>counters\<close> of the instance stay and \<open>data\<close> is the empty object
  that \<open>read\<close> assigns before it looks at the file.
\<close>

theorem read_missing_or_corrupt:
  assumes "filePath db \<noteq> []"
  shows "(\<not> fs_exists fs (filePath db) \<and> (CreateFile, filePath db) \<notin> set (failing fs) \<longrightarrow>
            read decode db fs =
              (Inr empty_state, db\<lparr>data := []\<rparr>,
               fs\<lparr>files := AList.update (filePath db) [] (files fs)\<rparr>))
     \<and> (\<forall>text. fs_readFile fs (filePath db) = Inr text \<and> text \<noteq> []
              \<and> JSON_parse_text decode text = None \<longrightarrow>
            read decode db fs = (Inl SyntaxError, db\<lparr>data := []\<rparr>, fs))
     \<and> (fs_readFile fs (filePath db) = Inr [] \<longrightarrow>
            read decode db fs = (Inr empty_state, db\<lparr>data := []\<rparr>, fs))"
  using assms
  by (auto simp: read_def Let_def fs_createFile_def fs_readFile_def fs_exists_def
      JSON_parse_text_def split: option.splits if_splits)

theorem read_missing_or_corrupt_witness:
  "read sample_decode fresh_db no_files = (Inr empty_state, fresh_db, empty_file)
   \<and> read sample_decode users_db corrupt_file = (Inl SyntaxError, users_db\<lparr>data := []\<rparr>, corrupt_file)
   \<and> read sample_decode users_db empty_file = (Inr empty_state, users_db\<lparr>data := []\<rparr>, empty_file)"
proof -
  have h1: "filePath fresh_db \<noteq> []" by (simp add: fresh_db_def)
  have h2: "filePath users_db \<noteq> []" by (simp add: users_db_def)
  have a1: "\<not> fs_exists no_files (filePath fresh_db) \<and> (CreateFile, filePath fresh_db) \<notin> set (failing no_files)"
    by (simp add: fs_exists_def no_files_def)
  have a2: "fs_readFile corrupt_file (filePath users_db) = Inr ''{bad'' \<and> ''{bad'' \<noteq> [] \<and>
      JSON_parse_text sample_decode ''{bad'' = None"
    by (simp add: fs_readFile_def corrupt_file_def users_db_def sample_decode_def empty_text_def
        JSON_parse_text_def)
  have a3: "fs_readFile empty_file (filePath users_db) = Inr []"
    by (simp add: fs_readFile_def empty_file_def users_db_def)
  from read_missing_or_corrupt [OF h1, of no_files sample_decode, THEN conjunct1, THEN mp, OF a1]
  have r1: "read sample_decode fresh_db no_files = (Inr empty_state, fresh_db, empty_file)"
    by (simp add: fresh_db_def no_files_def empty_file_def)
  from read_missing_or_corrupt [OF h2, of corrupt_file sample_decode, THEN conjunct2, THEN conjunct1,
      THEN spec, THEN mp, OF a2]
  have r2: "read sample_decode users_db corrupt_file = (Inl SyntaxError, users_db\<lparr>data := []\<rparr>, corrupt_file)" .
  from read_missing_or_corrupt [OF h2, of empty_file sample_decode, THEN conjunct2, THEN conjunct2,
      THEN mp, OF a3]
  have r3: "read sample_decode users_db empty_file = (Inr empty_state, users_db\<lparr>data := []\<rparr>, empty_file)" .
  from r1 r2 r3 show ?thesis by simp
qed

text \<open>
  C5. The outcome of \<open>write\<close> does not depend on the collection name it is called
  with. After a write that succeeds the file at the file path holds the serialized data,
  schema and counters of the whole instance and every other file is as before; the
  write succeeds when there is a file path and neither call on the file system fails.
  The worker of the write queue is this write, on the state at the time it serves the
  request.
\<close>

theorem write_serializes_whole_state:
  "write_disk encode db fs c = write_disk encode db fs c'
   \<and> (\<forall>fs'. write_disk encode db fs c = (None, fs') \<longrightarrow>
         map_of (files fs') (filePath db) = Some (encode (whole_state db))
         \<and> (\<forall>path. path \<noteq> filePath db \<longrightarrow> map_of (files fs') path = map_of (files fs) path))
   \<and> (filePath db \<noteq> [] \<and> (CreateFile, filePath db) \<notin> set (failing fs)
         \<and> (OutputJson, filePath db) \<notin> set (failing fs) \<longrightarrow>
         (\<exists>fs'. write_disk encode db fs c = (None, fs')))
   \<and> (\<forall>name rest. writeQueue db = name # rest \<longrightarrow>
         writeQueue_worker encode db fs =
           (fst (write_disk encode db fs c), db\<lparr>writeQueue := rest\<rparr>, snd (write_disk encode db fs c)))"
  by (auto simp: write_disk_def whole_state_def fs_createFile_def fs_outputJson_def fs_exists_def
      writeQueue_worker_def update_conv' split: if_splits prod.splits option.splits)

theorem write_serializes_whole_state_witness:
  "write_disk sample_encode users_db no_files ''users'' =
     (None, \<lparr>files = [(''.tmp/disk.db'', sample_encode (whole_state users_db))], failing = []\<rparr>)
   \<and> write_disk sample_encode users_db no_files ''profiles'' =
     write_disk sample_encode users_db no_files ''users''"
proof -
  have w: "write_disk sample_encode users_db no_files ''users'' =
     (None, \<lparr>files = [(''.tmp/disk.db'', sample_encode (whole_state users_db))], failing = []\<rparr>)"
    by (simp add: write_disk_def fs_createFile_def fs_outputJson_def fs_exists_def no_files_def
        whole_state_def users_db_def)
  from write_serializes_whole_state [of sample_encode users_db no_files "''profiles''" "''users''",
      THEN conjunct1] w
  show ?thesis by simp
qed

section \<open>Collections\<close>

text \<open>
  C6, as the claim states it, fails: \<open>dropCollection\<close> deletes from \<open>data\<close> and
  \<open>schema\<close> only, and the counters of the dropped collection are still there.
\<close>

theorem dropCollection_keeps_counters_counterexample:
  "map_of (data (fst (snd (dropCollection sample_encode users_db no_files ''users'' [])))) ''users'' = None
   \<and> map_of (schema (fst (snd (dropCollection sample_encode users_db no_files ''users'' [])))) ''users'' = None
   \<and> map_of (counters (fst (snd (dropCollection sample_encode users_db no_files ''users'' [])))) ''users'' =
       Some [(''id'', 1)]"
  by (simp add: dropCollection_def drop_one_def users_db_def Let_def split: prod.splits)

lemma fold_drop_one_data:
  "map_of (data (fold drop_one names db)) n = (if n \<in> set names then None else map_of (data db) n)"
  by (induction names arbitrary: db) (auto simp: drop_one_def delete_conv')

lemma fold_drop_one_schema:
  "map_of (schema (fold drop_one names db)) n = (if n \<in> set names then None else map_of (schema db) n)"
  by (induction names arbitrary: db) (auto simp: drop_one_def delete_conv')

lemma fold_drop_one_rest:
  "filePath (fold drop_one names db) = filePath db \<and> writeQueue (fold drop_one names db) = writeQueue db"
  by (induction names arbitrary: db) (auto simp: drop_one_def)

text \<open>
  C6, amended. With a file path, \<open>dropCollection\<close> removes the data and the schema of
  the named collection and of each related collection, leaves the data and the schema
  of every other collection as they were, leaves all counters as they were, and ends
  in a write of the resulting state.
\<close>

theorem dropCollection_frame:
  assumes "filePath db \<noteq> []"
    and "dropCollection encode db fs c relations = (res, db', fs')"
  shows "(\<forall>n\<in>set (c # relations). map_of (data db') n = None \<and> map_of (schema db') n = None)
     \<and> (\<forall>n. n \<notin> set (c # relations) \<longrightarrow>
           map_of (data db') n = map_of (data db) n \<and> map_of (schema db') n = map_of (schema db) n)
     \<and> counters db' = counters db
     \<and> filePath db' = filePath db \<and> writeQueue db' = writeQueue db
     \<and> (res, fs') = write_disk encode db' fs c"
proof -
  from assms have d: "db' = fold drop_one (c # relations) db"
    and w: "(res, fs') = write_disk encode db' fs c"
    by (auto simp: dropCollection_def Let_def split: prod.splits)
  have a: "\<And>n. map_of (data db') n = (if n \<in> set (c # relations) then None else map_of (data db) n)"
    by (simp only: d fold_drop_one_data)
  have b: "\<And>n. map_of (schema db') n = (if n \<in> set (c # relations) then None else map_of (schema db) n)"
    by (simp only: d fold_drop_one_schema)
  have e: "counters db' = counters db"
    by (simp only: d fold_drop_one_counters)
  have f: "filePath db' = filePath db \<and> writeQueue db' = writeQueue db"
    by (simp only: d fold_drop_one_rest)
  from a b e f w show ?thesis by auto
qed

theorem dropCollection_frame_witness:
  "map_of (data (fst (snd (dropCollection sample_encode blog_db no_files ''users'' [''profiles''])))) ''users'' = None
   \<and> map_of (schema (fst (snd (dropCollection sample_encode blog_db no_files ''users'' [''profiles''])))) ''profiles'' = None
   \<and> map_of (data (fst (snd (dropCollection sample_encode blog_db no_files ''users'' [''profiles''])))) ''posts'' =
       Some [[(''title'', JStr ''first''), (''id'', JNum 1)]]
   \<and> counters (fst (snd (dropCollection sample_encode blog_db no_files ''users'' [''profiles'']))) =
       [(''users'', [(''id'', 1)]), (''profiles'', []), (''posts'', [(''id'', 1)])]"
proof -
  let ?r = "dropCollection sample_encode blog_db no_files ''users'' [''profiles'']"
  have h1: "filePath blog_db \<noteq> []" by (simp add: blog_db_def)
  have h2: "?r = (fst ?r, fst (snd ?r), snd (snd ?r))" by simp
  note t = dropCollection_frame [OF h1 h2]
  from t [THEN conjunct1] have a: "map_of (data (fst (snd ?r))) ''users'' = None"
    and b: "map_of (schema (fst (snd ?r))) ''profiles'' = None"
    by simp_all
  from t [THEN conjunct2, THEN conjunct1, THEN spec, of "''posts''"]
  have c: "map_of (data (fst (snd ?r))) ''posts'' = Some [[(''title'', JStr ''first''), (''id'', JNum 1)]]"
    by (simp add: blog_db_def)
  from t [THEN conjunct2, THEN conjunct2, THEN conjunct1]
  have d: "counters (fst (snd ?r)) = [(''users'', [(''id'', 1)]), (''profiles'', []), (''posts'', [(''id'', 1)])]"
    by (simp add: blog_db_def)
  from a b c d show ?thesis by simp
qed

text \<open>
  C10. With a file path, \<open>describe\<close> of a collection that has no schema, or a schema
  without attributes, succeeds with \<open>null\<close>; and \<open>describe\<close> fails only without a file
  path, with the error for that.
\<close>

theorem describe_unknown_collection:
  "(filePath db \<noteq> [] \<and> (map_of (schema db) c = None \<or> map_of (schema db) c = Some []) \<longrightarrow>
      describe db c = Inr None)
   \<and> (\<forall>e. describe db c = Inl e \<longleftrightarrow> filePath db = [] \<and> e = NoFilePath)"
  by (auto simp: describe_def getCollection_def schema_of_def split: option.splits)

theorem describe_unknown_collection_witness:
  "describe users_db ''ghosts'' = Inr None \<and> describe users_db ''users'' = Inr (Some users_schema)"
proof -
  have h: "filePath users_db \<noteq> [] \<and>
      (map_of (schema users_db) ''ghosts'' = None \<or> map_of (schema users_db) ''ghosts'' = Some [])"
    by (simp add: users_db_def)
  have k: "describe users_db ''users'' = Inr (Some users_schema)"
    by (simp add: describe_def getCollection_def schema_of_def users_db_def users_schema_def)
  from describe_unknown_collection [of users_db "''ghosts''", THEN conjunct1, THEN mp, OF h] k
  show ?thesis by simp
qed

end
